theory Spec2Isabelle
  imports Main "HOL-Library.AList"
begin

section \<open>Strings as the store uses them\<close>

text \<open>
  The store works on JavaScript strings. They are modelled as \<open>string\<close>; the
  operations below are the ones the source calls: \<open>split\<close> on a one-character
  separator, \<open>join\<close>, \<open>slice(0, -1)\<close> (which is \<open>butlast\<close>), the global
  replacement of one character by another, and the decimal rendering of a counter
  inside a template literal.
\<close>

text \<open>\<open>s.split(c)\<close>: never empty; the empty string splits into one empty segment.\<close>

fun split_on :: "char \<Rightarrow> string \<Rightarrow> string list" where
  "split_on c [] = [[]]"
| "split_on c (x # xs) =
     (if x = c then [] # split_on c xs
      else (case split_on c xs of
              [] \<Rightarrow> [[x]]
            | s # ss \<Rightarrow> (x # s) # ss))"

text \<open>\<open>a.join(sep)\<close>; \<open>a.join()\<close> is \<open>a.join(",")\<close>.\<close>

fun join_sep :: "string \<Rightarrow> string list \<Rightarrow> string" where
  "join_sep sep [] = []"
| "join_sep sep [s] = s"
| "join_sep sep (s # t # ss) = s @ sep @ join_sep sep (t # ss)"

definition join_default :: "string list \<Rightarrow> string" where
  "join_default ss = join_sep '','' ss"

text \<open>\<open>s.replace(/c/g, d)\<close> and \<open>s.replaceAll(c, d)\<close> for single characters.\<close>

definition replace_char :: "char \<Rightarrow> char \<Rightarrow> string \<Rightarrow> string" where
  "replace_char c d s = map (\<lambda>x. if x = c then d else x) s"

definition digit_char :: "nat \<Rightarrow> char" where
  "digit_char d = ''0123456789'' ! d"

function string_of_nat :: "nat \<Rightarrow> string" where
  "string_of_nat n =
     (if n < 10 then [digit_char n] else string_of_nat (n div 10) @ [digit_char (n mod 10)])"
  by pat_completeness auto
termination
  by (relation "measure (\<lambda>n. n)") auto

declare string_of_nat.simps [simp del]

definition newline :: string where
  "newline = [CHR 0x0A]"

text \<open>
  The distinct members of a list, in the order of their first occurrence: the
  order of \<open>[...new Set(xs)]\<close>, and of the keys of a record.
\<close>

definition firstOccurrences :: "'a list \<Rightarrow> 'a list" where
  "firstOccurrences xs = rev (remdups (rev xs))"

text \<open>
  \<open>k in o\<close> on a plain object \<open>o\<close> with the given own keys: the operator also
  finds the properties every object inherits from \<open>Object.prototype\<close>.
\<close>

definition objectPrototypeKeys :: "string list" where
  "objectPrototypeKeys =
     [''constructor'', ''__defineGetter__'', ''__defineSetter__'', ''hasOwnProperty'',
      ''__lookupGetter__'', ''__lookupSetter__'', ''isPrototypeOf'', ''propertyIsEnumerable'',
      ''toString'', ''valueOf'', ''__proto__'', ''toLocaleString'']"

definition jsIn :: "string \<Rightarrow> string list \<Rightarrow> bool" where
  "jsIn k ownKeys = (k \<in> set ownKeys \<or> k \<in> set objectPrototypeKeys)"

text \<open>\<open>transformEdgeLabel\<close>: every underscore of a label becomes a space.\<close>

definition transformEdgeLabel :: "string \<Rightarrow> string" where
  "transformEdgeLabel label = replace_char (CHR ''_'') (CHR '' '') label"


section \<open>Data model\<close>

text \<open>A file of the vault (\<open>TFile\<close>): only the fields the store reads.\<close>

record tfile =
  f_path :: string
  f_name :: string
  f_extension :: string

text \<open>\<open>VizId\<close>: a logical name and the tag of the store it comes from.\<close>

record vizId =
  v_id :: string
  v_storeId :: string

text \<open>
  The \<open>classes\<close> of an element definition are either one string or an array of
  strings; the edge merge compares them with \<open>===\<close> against the string \<open>' inline'\<close>,
  so the two forms are kept apart.
\<close>

datatype classes = ClassString string | ClassList "string list"

record edgeData =
  d_id :: string
  d_source :: string
  d_target :: string
  d_context :: string
  d_edgeCount :: nat
  d_type :: "string option"

record edgeDefinition =
  e_group :: string
  e_data :: edgeData
  e_classes :: classes

text \<open>A reference inside the document body (\<open>ReferenceCache\<close>).\<close>

record referenceCache =
  rc_link :: string
  rc_original :: string
  rc_displayText :: "string option"
  rc_line :: nat

text \<open>A reference declared in the front matter (\<open>FrontmatterLinkCache\<close>).\<close>

record frontmatterLinkCache =
  fl_link :: string
  fl_key :: string

text \<open>
  \<open>iterLinks\<close> hands every reference to its callback together with a flag telling
  whether it is a \<open>ReferenceCache\<close>; the constructor carries that flag.
\<close>

datatype reference = RefCacheRef referenceCache | FrontmatterRef frontmatterLinkCache

fun ref_link :: "reference \<Rightarrow> string" where
  "ref_link (RefCacheRef rc) = rc_link rc"
| "ref_link (FrontmatterRef fl) = fl_link fl"

text \<open>
  The cached structural metadata of a file: the references \<open>iterateCacheRefs\<close>
  visits, in its order, and the front-matter links, which may be absent.
\<close>

record cachedMetadata =
  c_refs :: "referenceCache list"
  c_frontmatterLinks :: "frontmatterLinkCache list option"


text \<open>
  A node definition, as \<open>nodeFromFile\<close> and \<open>nodeDangling\<close> build it, with the data
  the view adds to a node: the linked node ids, the degree and the length of the
  name (absent until they are set).
\<close>

record nodeData =
  n_id :: string
  n_name :: string
  n_linkedNodeIds :: "string list option"
  n_degree :: "nat option"
  n_nameLength :: "nat option"

record nodeDefinition =
  nd_group :: string
  nd_data :: nodeData
  nd_classes :: classes

datatype elementDefinition = NodeDef nodeDefinition | EdgeDef edgeDefinition

fun def_id :: "elementDefinition \<Rightarrow> string" where
  "def_id (NodeDef n) = n_id (nd_data n)"
| "def_id (EdgeDef e) = d_id (e_data e)"

text \<open>
  An element of the live graph: the definition it was created from (its data),
  the classes it carries now, and its position on screen.
\<close>

record element =
  el_def :: elementDefinition
  el_classes :: "string list"
  el_position :: "int \<times> int"

definition el_id :: "element \<Rightarrow> string" where
  "el_id e = def_id (el_def e)"

text \<open>\<open>collection.$id(i)\<close>: the elements of the collection with that id.\<close>

definition by_id :: "element list \<Rightarrow> string \<Rightarrow> element list" where
  "by_id coll i = filter (\<lambda>e. el_id e = i) coll"

text \<open>
  The collaborators the store calls and that live outside it: the host's link
  resolution, metadata cache and vault, and the graph library's identifiers and
  element builders. They are parameters of the model.
\<close>

record env =
  getLinkpath :: "string \<Rightarrow> string"
  getFirstLinkpathDest :: "string \<Rightarrow> string \<Rightarrow> tfile option"
  getFileCache :: "tfile \<Rightarrow> cachedMetadata option"
  cachedRead :: "tfile \<Rightarrow> string"
  resolvedLinks :: "(string \<times> string list) list"
  getAbstractFileByPath :: "string \<Rightarrow> tfile option"
  toId :: "vizId \<Rightarrow> string"
  fromId :: "string \<Rightarrow> vizId"
  fromFile :: "tfile \<Rightarrow> vizId"
  parseRefCache :: "referenceCache \<Rightarrow> string list \<Rightarrow> string \<Rightarrow> string \<Rightarrow> string \<Rightarrow> string \<Rightarrow> edgeDefinition"
  typedLinkPrefix :: string
  nodeFromFile :: "tfile \<Rightarrow> nodeDefinition"
  nodeDangling :: "string \<Rightarrow> nodeDefinition"


section \<open>Front-matter edges\<close>

text \<open>
  The relation type of a front-matter reference, lines 76 to 81 of the store:
  the key is split at its dots; with more than one segment the type is
  \<open>split.slice(0, -1).join()\<close>, otherwise the key.
\<close>

definition frontmatterType :: "string \<Rightarrow> string" where
  "frontmatterType key =
     (let split = split_on (CHR ''.'') key
      in if length split > 1 then join_default (butlast split) else key)"

definition frontmatterEdge :: "string \<Rightarrow> string \<Rightarrow> string \<Rightarrow> frontmatterLinkCache \<Rightarrow> edgeDefinition" where
  "frontmatterEdge ident srcId otherId link =
     (let type = frontmatterType (fl_key link);
          displayType = transformEdgeLabel type
      in \<lparr> e_group = ''edges'',
           e_data = \<lparr> d_id = ident, d_source = srcId, d_target = otherId,
                      d_context = '''', d_edgeCount = 1, d_type = Some displayType \<rparr>,
           e_classes = ClassList [type, ''type-'' @ type,
                                  ''type-'' @ replace_char (CHR '' '') (CHR ''-'') type] \<rparr>)"


section \<open>The store: identity resolution and edge building\<close>

definition storeId :: string where
  "storeId = ''core''"

text \<open>\<open>VizId.fromNode(node)\<close> reads the identifier off the node's id.\<close>

definition fromNode :: "env \<Rightarrow> element \<Rightarrow> vizId" where
  "fromNode E node = fromId E (el_id node)"

definition getOtherId :: "env \<Rightarrow> reference \<Rightarrow> string \<Rightarrow> vizId" where
  "getOtherId E link sourcePath =
     (let path = getLinkpath E (ref_link link)
      in case getFirstLinkpathDest E path sourcePath of
           Some file \<Rightarrow> \<lparr> v_id = f_name file, v_storeId = storeId \<rparr>
         | None \<Rightarrow> \<lparr> v_id = path, v_storeId = storeId \<rparr>)"

definition getFile :: "env \<Rightarrow> vizId \<Rightarrow> tfile option" where
  "getFile E nodeId = getFirstLinkpathDest E (v_id nodeId) []"

definition iterLinks :: "cachedMetadata \<Rightarrow> reference list" where
  "iterLinks cache =
     map RefCacheRef (c_refs cache) @
     (case c_frontmatterLinks cache of
        None \<Rightarrow> []
      | Some links \<Rightarrow> map FrontmatterRef links)"

text \<open>
  The edge built for one reference, lines 63 to 98. For a reference of the body
  the edge is \<open>parseRefCache\<close>'s, its type (when it has a non-empty one) passed
  through \<open>transformEdgeLabel\<close>.
\<close>

definition buildEdge :: "env \<Rightarrow> string list \<Rightarrow> string \<Rightarrow> string \<Rightarrow> string \<Rightarrow> reference \<Rightarrow> edgeDefinition" where
  "buildEdge E content srcId otherId ident r =
     (case r of
        RefCacheRef rc \<Rightarrow>
          (let edge = parseRefCache E rc content ident srcId otherId (typedLinkPrefix E)
           in case d_type (e_data edge) of
                None \<Rightarrow> edge
              | Some t \<Rightarrow>
                  if t \<noteq> [] then edge\<lparr> e_data := (e_data edge)\<lparr> d_type := Some (transformEdgeLabel t) \<rparr> \<rparr>
                  else edge)
      | FrontmatterRef link \<Rightarrow> frontmatterEdge ident srcId otherId link)"

text \<open>
  \<open>edges\<close> is a \<open>Record<string, EdgeDefinition[]>\<close>: an association list whose keys
  stay in the order of their first insertion. Every key holds \<open>->\<close>, so none is an
  array index, and \<open>Object.keys\<close> lists them in that order, and none is the name of
  an inherited property, so that \<open>edgeId in edges\<close> is a lookup among the keys.
\<close>

type_synonym edgeRecord = "(string \<times> edgeDefinition list) list"

definition pairId :: "string \<Rightarrow> string \<Rightarrow> string" where
  "pairId srcId otherId = srcId @ ''->'' @ otherId"

text \<open>The callback of \<open>iterLinks\<close> in \<open>createEdges\<close>, lines 56 to 105.\<close>

definition addLink :: "env \<Rightarrow> tfile \<Rightarrow> string \<Rightarrow> element list \<Rightarrow> string list \<Rightarrow> edgeRecord \<Rightarrow> reference \<Rightarrow> edgeRecord" where
  "addLink E srcFile srcId toNodes content edges r =
     (let otherId = toId E (getOtherId E r (f_path srcFile))
      in if length (by_id toNodes otherId) > 0 then
           (let edgeId = pairId srcId otherId;
                count = (case map_of edges edgeId of Some es \<Rightarrow> length es + 1 | None \<Rightarrow> 1);
                ident = edgeId @ string_of_nat count;
                edge = buildEdge E content srcId otherId ident r
            in case map_of edges edgeId of
                 Some es \<Rightarrow> AList.update edgeId (es @ [edge]) edges
               | None \<Rightarrow> edges @ [(edgeId, [edge])])
         else edges)"

definition collectEdges :: "env \<Rightarrow> tfile \<Rightarrow> string \<Rightarrow> element list \<Rightarrow> cachedMetadata \<Rightarrow> edgeRecord" where
  "collectEdges E srcFile srcId toNodes cache =
     foldl (addLink E srcFile srcId toNodes (split_on (CHR 0x0A) (cachedRead E srcFile)))
       [] (iterLinks cache)"

text \<open>
  The merge of the inline edges of one group, lines 110 to 133. The state of the
  loop is \<open>returnEdges\<close>, \<open>inlineEdge\<close> and \<open>countInline\<close>; the separator is the text
  between the two contexts in the template literal of lines 116 to 120.
\<close>

definition contextSeparator :: string where
  "contextSeparator = newline @ replicate 16 (CHR '' '') @ newline @ ''---'' @ newline @ newline"

fun mergeInline :: "edgeDefinition list \<Rightarrow> edgeDefinition list \<times> edgeDefinition option \<times> nat
    \<Rightarrow> edgeDefinition list \<times> edgeDefinition option \<times> nat" where
  "mergeInline [] st = st"
| "mergeInline (edge # rest) (returnEdges, inlineEdge, countInline) =
     (if e_classes edge = ClassString '' inline'' then
        (case inlineEdge of
           Some ie \<Rightarrow>
             mergeInline rest
               (returnEdges,
                Some (ie\<lparr> e_data := (e_data ie)\<lparr> d_context :=
                         d_context (e_data ie) @ contextSeparator @ d_context (e_data edge) \<rparr> \<rparr>),
                countInline + 1)
         | None \<Rightarrow> mergeInline rest (returnEdges, Some edge, 1))
      else mergeInline rest (returnEdges @ [edge], inlineEdge, countInline))"

fun mergeGroups :: "edgeRecord \<Rightarrow> edgeDefinition list \<Rightarrow> edgeDefinition list" where
  "mergeGroups [] returnEdges = returnEdges"
| "mergeGroups ((edgeId, connectedEdges) # rest) returnEdges =
     (case mergeInline connectedEdges (returnEdges, None, 0) of
        (returnEdges', Some ie, countInline) \<Rightarrow>
          mergeGroups rest (returnEdges' @ [ie\<lparr> e_data := (e_data ie)\<lparr> d_edgeCount := countInline \<rparr> \<rparr>])
      | (returnEdges', None, countInline) \<Rightarrow> mergeGroups rest returnEdges')"

definition createEdges :: "env \<Rightarrow> bool \<Rightarrow> tfile \<Rightarrow> string \<Rightarrow> element list \<Rightarrow> edgeDefinition list" where
  "createEdges E mergeEdges srcFile srcId toNodes =
     (if f_extension srcFile \<noteq> ''md'' then []
      else case getFileCache E srcFile of
             None \<Rightarrow> []
           | Some cache \<Rightarrow>
               (let edges = collectEdges E srcFile srcId toNodes cache
                in if mergeEdges then mergeGroups edges []
                   else concat (map snd edges)))"

text \<open>
  \<open>connectNodes\<close>, lines 140 to 170: one loop over the new nodes, one over
  \<open>allNodes.difference(newNodes)\<close>, both appending to \<open>edges\<close>.
\<close>

definition difference :: "element list \<Rightarrow> element list \<Rightarrow> element list" where
  "difference xs ys = filter (\<lambda>e. el_id e \<notin> set (map el_id ys)) xs"

fun connectLoop :: "env \<Rightarrow> bool \<Rightarrow> element list \<Rightarrow> element list \<Rightarrow> edgeDefinition list \<Rightarrow> edgeDefinition list" where
  "connectLoop E mergeEdges [] toNodes edges = edges"
| "connectLoop E mergeEdges (node # rest) toNodes edges =
     (let ident = fromNode E node
      in if v_storeId ident = storeId then
           (case getFile E ident of
              Some file \<Rightarrow>
                connectLoop E mergeEdges rest toNodes
                  (edges @ createEdges E mergeEdges file (toId E ident) toNodes)
            | None \<Rightarrow> connectLoop E mergeEdges rest toNodes edges)
         else connectLoop E mergeEdges rest toNodes edges)"

definition connectNodes :: "env \<Rightarrow> bool \<Rightarrow> element list \<Rightarrow> element list \<Rightarrow> edgeDefinition list" where
  "connectNodes E mergeEdges allNodes newNodes =
     (let edges = connectLoop E mergeEdges newNodes allNodes []
      in connectLoop E mergeEdges (difference allNodes newNodes) newNodes edges)"


section \<open>The store: neighbourhoods\<close>

text \<open>
  What a call can fail with. \<open>fillWithBacklinks\<close> hands the result of
  \<open>getAbstractFileByPath\<close> to \<open>VizId.fromFile\<close> without a check; on \<open>null\<close> the read
  of the file's name throws.
\<close>

datatype error = TypeError

text \<open>
  \<open>nodes\<close> and \<open>promiseNodes\<close> are records keyed by node id, kept in insertion
  order (a node id is taken not to be an array index, which \<open>Object.keys\<close> would
  list first); \<open>k in nodes\<close> is \<open>hasKey\<close>, which like every \<open>in\<close> also finds the
  inherited properties.
\<close>

type_synonym nodeRecord = "(string \<times> nodeDefinition) list"

definition hasKey :: "(string \<times> 'v) list \<Rightarrow> string \<Rightarrow> bool" where
  "hasKey r k = jsIn k (map fst r)"

definition getNodeFromLink :: "env \<Rightarrow> reference \<Rightarrow> string \<Rightarrow> nodeDefinition" where
  "getNodeFromLink E link sourcePath =
     (let path = getLinkpath E (ref_link link)
      in case getFirstLinkpathDest E path sourcePath of
           Some file \<Rightarrow> nodeFromFile E file
         | None \<Rightarrow> nodeDangling E path)"

text \<open>
  The loop of \<open>fillWithBacklinks\<close> over the keys of \<open>resolvedLinks\<close>, lines 206 to
  214. An entry of \<open>resolvedLinks\<close> is a plain object keyed by the paths linked to,
  and the test of line 207 is \<open>path in resolvedLinks[otherPath]\<close>.
\<close>

fun backlinkLoop :: "env \<Rightarrow> string \<Rightarrow> (string \<times> string list) list \<Rightarrow> nodeRecord \<Rightarrow> error + nodeRecord" where
  "backlinkLoop E path [] nodes = Inr nodes"
| "backlinkLoop E path ((otherPath, links) # rest) nodes =
     (if jsIn path links then
        (case getAbstractFileByPath E otherPath of
           None \<Rightarrow> Inl TypeError
         | Some file \<Rightarrow>
             (let ident = toId E (fromFile E file)
              in if \<not> hasKey nodes ident
                 then backlinkLoop E path rest (nodes @ [(ident, nodeFromFile E file)])
                 else backlinkLoop E path rest nodes))
      else backlinkLoop E path rest nodes)"

definition fillWithBacklinks :: "env \<Rightarrow> nodeRecord \<Rightarrow> vizId \<Rightarrow> error + nodeRecord" where
  "fillWithBacklinks E nodes nodeId =
     (if v_storeId nodeId = ''core'' then
        (case getFile E nodeId of
           None \<Rightarrow> Inr nodes
         | Some file \<Rightarrow> backlinkLoop E (f_path file) (resolvedLinks E) nodes)
      else Inr nodes)"

text \<open>The callback of \<open>iterLinks\<close> in \<open>getNeighbourhood\<close>, lines 245 to 250.\<close>

definition addPromise :: "env \<Rightarrow> tfile \<Rightarrow> nodeRecord \<Rightarrow> nodeRecord \<Rightarrow> reference \<Rightarrow> nodeRecord" where
  "addPromise E file nodes promiseNodes r =
     (let ident = toId E (getOtherId E r (f_path file))
      in if \<not> hasKey nodes ident
         then AList.update ident (getNodeFromLink E r (f_path file)) promiseNodes
         else promiseNodes)"

text \<open>The loop over the keys of \<open>promiseNodes\<close>, lines 251 to 255.\<close>

fun awaitPromises :: "nodeRecord \<Rightarrow> nodeRecord \<Rightarrow> nodeRecord" where
  "awaitPromises [] nodes = nodes"
| "awaitPromises ((ident, node) # rest) nodes =
     (if \<not> hasKey nodes ident then awaitPromises rest (nodes @ [(ident, node)])
      else awaitPromises rest nodes)"

fun neighbourhoodLoop :: "env \<Rightarrow> vizId list \<Rightarrow> nodeRecord \<Rightarrow> error + nodeRecord" where
  "neighbourhoodLoop E [] nodes = Inr nodes"
| "neighbourhoodLoop E (nodeId # rest) nodes =
     (if v_storeId nodeId = storeId then
        (case getFile E nodeId of
           None \<Rightarrow> neighbourhoodLoop E rest nodes
         | Some file \<Rightarrow>
             (case getFileCache E file of
                None \<Rightarrow> neighbourhoodLoop E rest nodes
              | Some cache \<Rightarrow>
                  (let nodes1 = (if \<not> hasKey nodes (toId E nodeId)
                                 then nodes @ [(toId E nodeId, nodeFromFile E file)]
                                 else nodes);
                       promiseNodes = foldl (addPromise E file nodes1) [] (iterLinks cache);
                       nodes2 = awaitPromises promiseNodes nodes1
                   in case fillWithBacklinks E nodes2 nodeId of
                        Inl e \<Rightarrow> Inl e
                      | Inr nodes3 \<Rightarrow> neighbourhoodLoop E rest nodes3)))
      else neighbourhoodLoop E rest nodes)"

text \<open>\<open>getNeighbourhood\<close> returns \<open>Object.values(nodes)\<close>.\<close>

definition getNeighbourhood :: "env \<Rightarrow> vizId list \<Rightarrow> error + nodeDefinition list" where
  "getNeighbourhood E nodeIds =
     (case neighbourhoodLoop E nodeIds [] of
        Inl e \<Rightarrow> Inl e
      | Inr nodes \<Rightarrow> Inr (map snd nodes))"

text \<open>\<open>get\<close>, lines 266 to 277.\<close>

definition get :: "env \<Rightarrow> vizId \<Rightarrow> nodeDefinition option" where
  "get E nodeId =
     (case getFile E nodeId of
        None \<Rightarrow> None
      | Some file \<Rightarrow>
          (case getFileCache E file of
             None \<Rightarrow> None
           | Some cache \<Rightarrow> Some (nodeFromFile E file)))"


section \<open>The live graph\<close>

text \<open>
  The graph container is the rendering library's. The model keeps its elements in
  a list and gives the operations the store and the view call on it by their
  contract: an element is found by its id, a class is added once, removing a node
  removes the edges attached to it, and \<open>hasClass\<close> on a collection asks its first
  element.
\<close>

definition isNode :: "element \<Rightarrow> bool" where
  "isNode e = (case el_def e of NodeDef n \<Rightarrow> True | EdgeDef d \<Rightarrow> False)"

definition edgeEnds :: "element \<Rightarrow> string list" where
  "edgeEnds e =
     (case el_def e of
        NodeDef n \<Rightarrow> []
      | EdgeDef d \<Rightarrow> [d_source (e_data d), d_target (e_data d)])"

definition hasClass :: "element list \<Rightarrow> string \<Rightarrow> bool" where
  "hasClass coll c = (case coll of [] \<Rightarrow> False | e # rest \<Rightarrow> c \<in> set (el_classes e))"

definition addClass :: "element list \<Rightarrow> string \<Rightarrow> element list \<Rightarrow> element list" where
  "addClass coll c g =
     map (\<lambda>e. if el_id e \<in> set (map el_id coll) \<and> c \<notin> set (el_classes e)
              then e\<lparr> el_classes := el_classes e @ [c] \<rparr> else e) g"

definition attachedTo :: "element list \<Rightarrow> element \<Rightarrow> bool" where
  "attachedTo nodes e =
     (\<not> isNode e \<and> (\<exists>n \<in> set nodes. isNode n \<and> el_id n \<in> set (edgeEnds e)))"

definition connectedEdges :: "element list \<Rightarrow> element list \<Rightarrow> element list" where
  "connectedEdges g nodes = filter (attachedTo nodes) g"

definition removeElements :: "element list \<Rightarrow> element list \<Rightarrow> element list" where
  "removeElements g coll = filter (\<lambda>e. e \<notin> set coll \<and> \<not> attachedTo coll e) g"

text \<open>\<open>a.merge(b)\<close> on collections: the elements of \<open>b\<close> that \<open>a\<close> lacks are added.\<close>

definition collectionMerge :: "element list \<Rightarrow> element list \<Rightarrow> element list" where
  "collectionMerge a b = a @ filter (\<lambda>e. el_id e \<notin> set (map el_id a)) b"

text \<open>An object is truthy: \<open>if (node)\<close> on a collection takes the branch, empty or not.\<close>

definition objectTruthy :: "'a \<Rightarrow> bool" where
  "objectTruthy x = True"

text \<open>\<open>s.includes(pat)\<close>.\<close>

fun str_includes :: "string \<Rightarrow> string \<Rightarrow> bool" where
  "str_includes [] pat = (pat = [])"
| "str_includes (c # cs) pat = (take (length pat) (c # cs) = pat \<or> str_includes cs pat)"

text \<open>
  Modelled from the spec: the class names of \<open>constants.ts\<close>, which is not among
  the sources, for the flags the specification calls \<^emph>\<open>expanded\<close> and
  \<^emph>\<open>protected\<close>.
\<close>

definition CLASS_EXPANDED :: string where
  "CLASS_EXPANDED = ''expanded''"

definition CLASS_PROTECTED :: string where
  "CLASS_PROTECTED = ''protected''"


section \<open>The view\<close>

text \<open>
  What the view lets its observers see: the events it triggers, and the request
  for a debounced restart of the layout.
\<close>

datatype event =
  ElementsChange
| RestartLayoutDebounced
| NewNodesAdded "string list"
| Expand "string list"
| NodeContentAppended "string list"

text \<open>
  The result of a merge: the two collections, with their elements as the graph
  has them when the merge returns.
\<close>

record mergedToGraph =
  merged :: "element list"
  added :: "element list"

text \<open>
  The view: its graph, the settings the modelled functions read (\<open>mergeEdges\<close>,
  \<open>filter\<close>, and of every style group its \<open>filter\<close>), the global style groups of
  the plugin when the plugin has settings, and the events triggered so far.
\<close>

record view =
  vizReady :: bool
  viz :: "element list option"
  settings_mergeEdges :: bool
  settings_filter :: string
  settings_styleGroups :: "string list"
  plugin_globalStyleGroups :: "string list option"
  events :: "event list"

definition trigger :: "event \<Rightarrow> view \<Rightarrow> view" where
  "trigger ev v = v\<lparr> events := events v @ [ev] \<rparr>"

text \<open>
  The positioning heuristic, \<open>setInitialNodePositions\<close>, is a parameter: from the
  graph, the parent nodes and a new node it gives the new node's position.
\<close>

type_synonym placement = "element list \<Rightarrow> element list \<Rightarrow> element \<Rightarrow> int \<times> int"

text \<open>
  The collaborators of the view that are not among the sources: the positioning
  heuristic of \<open>new-node-positioning.ts\<close> and \<open>filter\<close> of \<open>query-builder.ts\<close>, which
  from a query and the nodes of the graph gives the nodes that match, some of the
  nodes it is given.
\<close>

record viewHost =
  placeNode :: placement
  queryFilter :: "string \<Rightarrow> element list \<Rightarrow> element list"

text \<open>
  \<open>onGraphChanged\<close>, lines 613 to 645 of \<open>visualization.ts\<close>. For every node it
  sets the data \<open>degree\<close> (\<open>node.degree(false)\<close>: the edges at the node, loops
  left out) and \<open>nameLength\<close>, and adds one class for every type among the edges
  that come in and one for every type among the edges that go out (an edge
  without a type counts as \<open>inline\<close>; \<open>incomers\<close> and \<open>outgoers\<close> leave loops
  out). It triggers \<open>elementsChange\<close>, applies the search filter, asks for a
  debounced restart of the layout when \<open>debounceLayout\<close> is set (the layout then
  runs later, on a timer, and is no part of the call), and assigns the style
  groups. Without a graph the call throws.
\<close>

definition isLoop :: "element \<Rightarrow> bool" where
  "isLoop e =
     (case el_def e of
        NodeDef n \<Rightarrow> False
      | EdgeDef d \<Rightarrow> d_source (e_data d) = d_target (e_data d))"

definition degree :: "element list \<Rightarrow> element \<Rightarrow> nat" where
  "degree g node =
     length (filter (\<lambda>e. \<not> isNode e \<and> el_id node \<in> set (edgeEnds e) \<and> \<not> isLoop e) g)"

definition incomers :: "element list \<Rightarrow> element \<Rightarrow> element list" where
  "incomers g node =
     filter (\<lambda>e. case el_def e of
                   NodeDef n \<Rightarrow> False
                 | EdgeDef d \<Rightarrow> d_target (e_data d) = el_id node \<and> d_source (e_data d) \<noteq> el_id node) g"

definition outgoers :: "element list \<Rightarrow> element \<Rightarrow> element list" where
  "outgoers g node =
     filter (\<lambda>e. case el_def e of
                   NodeDef n \<Rightarrow> False
                 | EdgeDef d \<Rightarrow> d_source (e_data d) = el_id node \<and> d_target (e_data d) \<noteq> el_id node) g"

text \<open>\<open>edge.data('type') ? edge.data('type') : 'inline'\<close>.\<close>

definition edgeTypeName :: "element \<Rightarrow> string" where
  "edgeTypeName e =
     (case el_def e of
        NodeDef n \<Rightarrow> ''inline''
      | EdgeDef d \<Rightarrow>
          (case d_type (e_data d) of
             None \<Rightarrow> ''inline''
           | Some t \<Rightarrow> if t \<noteq> [] then t else ''inline''))"

text \<open>Adding and removing a class on one element; adding a list of classes.\<close>

definition addClassTo :: "string \<Rightarrow> element \<Rightarrow> element" where
  "addClassTo c e = (if c \<in> set (el_classes e) then e else e\<lparr> el_classes := el_classes e @ [c] \<rparr>)"

definition removeClassFrom :: "string \<Rightarrow> element \<Rightarrow> element" where
  "removeClassFrom c e = e\<lparr> el_classes := removeAll c (el_classes e) \<rparr>"

definition addClasses :: "string list \<Rightarrow> element \<Rightarrow> element" where
  "addClasses cs e = foldl (\<lambda>e' c. addClassTo c e') e cs"

text \<open>The body of the loop over the nodes, lines 617 to 624.\<close>

definition recomputeNode :: "element list \<Rightarrow> element \<Rightarrow> element" where
  "recomputeNode g node =
     (case el_def node of
        EdgeDef d \<Rightarrow> node
      | NodeDef n \<Rightarrow>
          addClasses (firstOccurrences (map (\<lambda>e. ''has-outgoing-'' @ edgeTypeName e) (outgoers g node)))
            (addClasses (firstOccurrences (map (\<lambda>e. ''has-incoming-'' @ edgeTypeName e) (incomers g node)))
               (node\<lparr> el_def := NodeDef (n\<lparr> nd_data := (nd_data n)
                          \<lparr> n_degree := Some (degree g node),
                            n_nameLength := Some (length (n_name (nd_data n))) \<rparr> \<rparr>) \<rparr>)))"

text \<open>
  Modelled from the spec: the class name of \<open>constants.ts\<close>, which is not among
  the sources, for the flag the specification calls \<^emph>\<open>filtered\<close>.
\<close>

definition CLASS_FILTERED :: string where
  "CLASS_FILTERED = ''filtered''"

text \<open>\<open>searchFilter\<close>, lines 664 to 671.\<close>

definition searchFilter :: "viewHost \<Rightarrow> string \<Rightarrow> element list \<Rightarrow> element list" where
  "searchFilter H query g =
     (let g1 = map (\<lambda>e. if isNode e then removeClassFrom CLASS_FILTERED e else e) g;
          filteredNodes = queryFilter H query (filter isNode g1)
      in map (\<lambda>e. if isNode e \<and> el_id e \<notin> set (map el_id filteredNodes)
                   then addClassTo CLASS_FILTERED e else e) g1)"

text \<open>
  \<open>assignStyleGroups\<close>, lines 596 to 611: \<open>_assignGroups\<close> for one group with its
  index, for a list of groups, and for the local groups followed by the global
  ones.
\<close>

definition assignGroup :: "viewHost \<Rightarrow> string \<Rightarrow> element list \<Rightarrow> nat \<times> string \<Rightarrow> element list" where
  "assignGroup H prefix g ig =
     (case ig of
        (index, groupFilter) \<Rightarrow>
          (let clazz = prefix @ ''-'' @ string_of_nat index;
               g1 = map (\<lambda>e. if isNode e then removeClassFrom clazz e else e) g;
               filteredNodes = queryFilter H groupFilter (filter isNode g1)
           in map (\<lambda>e. if isNode e \<and> el_id e \<in> set (map el_id filteredNodes)
                        then addClassTo clazz e else e) g1))"

definition assignGroups :: "viewHost \<Rightarrow> string list \<Rightarrow> string \<Rightarrow> element list \<Rightarrow> element list" where
  "assignGroups H groups prefix g = foldl (assignGroup H prefix) g (enumerate 0 groups)"

definition assignStyleGroups :: "viewHost \<Rightarrow> view \<Rightarrow> element list \<Rightarrow> element list" where
  "assignStyleGroups H v g =
     (let g1 = assignGroups H (settings_styleGroups v) ''local'' g
      in case plugin_globalStyleGroups v of
           None \<Rightarrow> g1
         | Some groups \<Rightarrow> assignGroups H groups ''global'' g1)"

text \<open>What \<open>onGraphChanged\<close> makes of the graph: the three passes in their order.\<close>

definition recomputeGraph :: "viewHost \<Rightarrow> view \<Rightarrow> element list \<Rightarrow> element list" where
  "recomputeGraph H v g =
     assignStyleGroups H v
       (searchFilter H (settings_filter v)
          (map (\<lambda>e. if isNode e then recomputeNode g e else e) g))"

definition onGraphChanged :: "viewHost \<Rightarrow> bool \<Rightarrow> bool \<Rightarrow> view \<Rightarrow> (error + unit) \<times> view" where
  "onGraphChanged H batch debounceLayout v =
     (case viz v of
        None \<Rightarrow> (Inl TypeError, v)
      | Some g \<Rightarrow>
          (Inr (),
           v\<lparr> viz := Some (recomputeGraph H v g),
              events := events v @ [ElementsChange] @
                        (if debounceLayout then [RestartLayoutDebounced] else []) \<rparr>))"

text \<open>
  The merge the view delegates to is \<open>mergeToGraph\<close> of \<open>new-node-positioning.ts\<close>,
  which is not among the sources. The definitions from here to \<open>mergeToGraphUtil\<close>
  follow section 4.5 of the specification.
\<close>

text \<open>
  Modelled from the spec: the classes of the definition an element is inserted
  from, which become the element's classes.
\<close>

definition def_classes :: "elementDefinition \<Rightarrow> classes" where
  "def_classes d = (case d of NodeDef n \<Rightarrow> nd_classes n | EdgeDef e \<Rightarrow> e_classes e)"

text \<open>
  Modelled from the spec: a class string is a list of class names separated by
  spaces.
\<close>

definition classList :: "classes \<Rightarrow> string list" where
  "classList c =
     (case c of
        ClassString s \<Rightarrow> filter (\<lambda>w. w \<noteq> []) (split_on (CHR '' '') s)
      | ClassList cs \<Rightarrow> cs)"

text \<open>
  Modelled from the spec: the element inserted for a definition that is absent
  from the graph, before it is positioned.
\<close>

definition newElement :: "elementDefinition \<Rightarrow> element" where
  "newElement d = \<lparr> el_def = d, el_classes = classList (def_classes d), el_position = (0, 0) \<rparr>"

text \<open>
  Modelled from the spec: every element is keyed by its id; if an element with
  that id already exists in the live graph, it is left untouched and is reported
  only in \<open>merged\<close>; if absent, it is inserted and reported in both \<open>merged\<close> and
  \<open>added\<close>. The loop keeps the ids reported.
\<close>

fun mergeElements :: "elementDefinition list \<Rightarrow> element list \<Rightarrow> string list \<Rightarrow> string list
    \<Rightarrow> element list \<times> string list \<times> string list" where
  "mergeElements [] g mergedIds addedIds = (g, mergedIds, addedIds)"
| "mergeElements (d # ds) g mergedIds addedIds =
     (if by_id g (def_id d) \<noteq> [] then mergeElements ds g (mergedIds @ [def_id d]) addedIds
      else mergeElements ds (g @ [newElement d]) (mergedIds @ [def_id d]) (addedIds @ [def_id d]))"

text \<open>
  Modelled from the spec: when \<open>parentNodes\<close> is supplied, the newly added nodes are
  passed to the positioning heuristic, one after the other.
\<close>

definition positionAdded :: "placement \<Rightarrow> element list \<Rightarrow> string list \<Rightarrow> element list \<Rightarrow> element list" where
  "positionAdded P parentNodes addedIds g =
     foldl (\<lambda>g' i. map (\<lambda>e. if el_id e = i \<and> isNode e
                               then e\<lparr> el_position := P g' parentNodes e \<rparr> else e) g')
       g addedIds"

text \<open>
  Modelled from the spec: \<open>mergeToGraph\<close> of \<open>new-node-positioning.ts\<close>, which is not
  among the sources. It merges the batch, positions the added nodes when parents
  are given, and returns the elements merged and added, the graph, and whether
  the structural-change signal is to fire (once, after the merge, when
  notification is asked for).
\<close>

definition mergeToGraphUtil :: "placement \<Rightarrow> element list \<Rightarrow> elementDefinition list \<Rightarrow> bool \<Rightarrow> bool
    \<Rightarrow> element list option \<Rightarrow> mergedToGraph \<times> element list \<times> bool" where
  "mergeToGraphUtil P g elements batch triggerGraphChanged parentNodes =
     (case mergeElements elements g [] [] of
        (g1, mergedIds, addedIds) \<Rightarrow>
          (let g2 = (case parentNodes of
                       None \<Rightarrow> g1
                     | Some parents \<Rightarrow> positionAdded P parents addedIds g1)
           in (\<lparr> merged = filter (\<lambda>e. el_id e \<in> set mergedIds) g2,
                  added = filter (\<lambda>e. el_id e \<in> set addedIds) g2 \<rparr>,
               g2, triggerGraphChanged)))"

text \<open>
  A collection holds elements of the graph themselves, not copies: read after
  the graph has changed, it shows its elements as the graph now has them.
\<close>

definition readCollection :: "view \<Rightarrow> element list \<Rightarrow> element list" where
  "readCollection v coll =
     (case viz v of
        None \<Rightarrow> []
      | Some g \<Rightarrow> filter (\<lambda>e. el_id e \<in> set (map el_id coll)) g)"

text \<open>
  \<open>mergeToGraph\<close> of the view, lines 542 to 562 of \<open>visualization.ts\<close>: the merge,
  with \<open>onGraphChanged(batch)\<close> as its notification, then the event for the nodes
  that are new. The result is read once the notification has run. Without a
  graph the call throws.
\<close>

definition mergeToGraph :: "viewHost \<Rightarrow> elementDefinition list \<Rightarrow> bool \<Rightarrow> bool \<Rightarrow> element list option
    \<Rightarrow> view \<Rightarrow> (error + mergedToGraph) \<times> view" where
  "mergeToGraph H elements batch triggerGraphChanged parentNodes v =
     (case viz v of
        None \<Rightarrow> (Inl TypeError, v)
      | Some g \<Rightarrow>
          (case mergeToGraphUtil (placeNode H) g elements batch triggerGraphChanged parentNodes of
             (result, g', notify) \<Rightarrow>
               (case (if notify then onGraphChanged H batch False (v\<lparr> viz := Some g' \<rparr>)
                      else (Inr (), v\<lparr> viz := Some g' \<rparr>)) of
                  (Inl e, v2) \<Rightarrow> (Inl e, v2)
                | (Inr u, v2) \<Rightarrow>
                    (let result2 = \<lparr> merged = readCollection v2 (merged result),
                                       added = readCollection v2 (added result) \<rparr>;
                         newNodes = filter isNode (added result2)
                     in if length newNodes > 0
                        then (Inr result2, trigger (NewNodesAdded (map el_id newNodes)) v2)
                        else (Inr result2, v2)))))"

text \<open>
  A data store as the view sees it. The view asks every store of its list for
  neighbourhoods and for connecting edges; a store's call may fail.
\<close>

record store =
  s_getNeighbourhood :: "vizId list \<Rightarrow> error + nodeDefinition list"
  s_connectNodes :: "bool \<Rightarrow> element list \<Rightarrow> element list \<Rightarrow> error + edgeDefinition list"

definition obsidianStore :: "env \<Rightarrow> store" where
  "obsidianStore E =
     \<lparr> s_getNeighbourhood = getNeighbourhood E,
       s_connectNodes = (\<lambda>m allNodes newNodes. Inr (connectNodes E m allNodes newNodes)) \<rparr>"

fun neighbourhood :: "store list \<Rightarrow> vizId list \<Rightarrow> nodeDefinition list \<Rightarrow> error + nodeDefinition list" where
  "neighbourhood [] toExpand nodes = Inr nodes"
| "neighbourhood (s # stores) toExpand nodes =
     (case s_getNeighbourhood s toExpand of
        Inl e \<Rightarrow> Inl e
      | Inr storeNodes \<Rightarrow> neighbourhood stores toExpand (nodes @ storeNodes))"

fun buildEdgesLoop :: "store list \<Rightarrow> bool \<Rightarrow> element list \<Rightarrow> element list \<Rightarrow> edgeDefinition list
    \<Rightarrow> error + edgeDefinition list" where
  "buildEdgesLoop [] m allNodes newNodes edges = Inr edges"
| "buildEdgesLoop (s # stores) m allNodes newNodes edges =
     (case s_connectNodes s m allNodes newNodes of
        Inl e \<Rightarrow> Inl e
      | Inr storeEdges \<Rightarrow> buildEdgesLoop stores m allNodes newNodes (edges @ storeEdges))"

definition buildEdges :: "store list \<Rightarrow> element list \<Rightarrow> view \<Rightarrow> error + edgeDefinition list" where
  "buildEdges stores newNodes v =
     (case viz v of
        None \<Rightarrow> Inl TypeError
      | Some g \<Rightarrow> buildEdgesLoop stores (settings_mergeEdges v) (filter isNode g) newNodes [])"

text \<open>\<open>expand\<close>, lines 438 to 466 of \<open>visualization.ts\<close>.\<close>

definition expand :: "env \<Rightarrow> viewHost \<Rightarrow> store list \<Rightarrow> element list \<Rightarrow> bool \<Rightarrow> bool \<Rightarrow> view
    \<Rightarrow> (error + mergedToGraph option) \<times> view" where
  "expand E H stores toExpand batch triggerGraphChanged v =
     (if length toExpand = 0 then (Inr None, v)
      else
        (case viz v of
           None \<Rightarrow> (Inl TypeError, v)
         | Some g \<Rightarrow>
             (let v1 = v\<lparr> viz := Some (addClass toExpand CLASS_PROTECTED (addClass toExpand CLASS_EXPANDED g)) \<rparr>;
                  expandedIds = map (fromNode E) toExpand
              in case neighbourhood stores expandedIds [] of
                   Inl e \<Rightarrow> (Inl e, v1)
                 | Inr nb \<Rightarrow>
                     (case mergeToGraph H (map NodeDef nb) False False (Some toExpand) v1 of
                        (Inl e, v2) \<Rightarrow> (Inl e, v2)
                      | (Inr r, v2) \<Rightarrow>
                          (case viz v2 of
                             None \<Rightarrow> (Inl TypeError, v2)
                           | Some g2 \<Rightarrow>
                               (let nodes = foldl (\<lambda>ns n. collectionMerge ns (by_id g2 (n_id (nd_data n)))) [] nb
                                in case buildEdges stores nodes v2 of
                                     Inl e \<Rightarrow> (Inl e, v2)
                                   | Inr edges \<Rightarrow>
                                       (case mergeToGraph H (map EdgeDef edges) False triggerGraphChanged None v2 of
                                          (Inl e, v3) \<Rightarrow> (Inl e, v3)
                                        | (Inr edgesInGraph, v3) \<Rightarrow>
                                            (Inr (Some edgesInGraph),
                                             trigger (Expand (map el_id toExpand)) v3))))))))"


section \<open>The store: refreshing a node\<close>

text \<open>
  \<open>refreshNode\<close>, lines 279 to 355, in three parts: the recomputation of the
  node's edges (lines 296 to 331), which yields \<open>correctEdges\<close> and the node
  collection or returns early; the pruning (lines 332 to 355); and the function
  itself with its guards.
\<close>

definition refreshRecompute :: "env \<Rightarrow> viewHost \<Rightarrow> store list \<Rightarrow> vizId \<Rightarrow> element list \<Rightarrow> view
    \<Rightarrow> (error + (mergedToGraph \<times> element list) option) \<times> view" where
  "refreshRecompute E H stores ident node v =
     (if length node > 0 \<and> hasClass node CLASS_EXPANDED then
        (case expand E H stores node True False v of
           (Inl e, v1) \<Rightarrow> (Inl e, v1)
         | (Inr None, v1) \<Rightarrow> (Inl TypeError, v1)
         | (Inr (Some correctEdges), v1) \<Rightarrow> (Inr (Some (correctEdges, node)), v1))
      else
        (case get E ident of
           None \<Rightarrow> (Inr None, v)
         | Some nodeDef \<Rightarrow>
             (let linkedNodeIds =
                    (case getFile E ident of
                       None \<Rightarrow> []
                     | Some file \<Rightarrow>
                         (case getFileCache E file of
                            None \<Rightarrow> []
                          | Some cache \<Rightarrow>
                              map (\<lambda>r. toId E (getOtherId E r (f_path file))) (iterLinks cache)));
                  nodeDef1 = (if length linkedNodeIds > 0
                              then nodeDef\<lparr> nd_data := (nd_data nodeDef)\<lparr> n_linkedNodeIds := Some linkedNodeIds \<rparr> \<rparr>
                              else nodeDef)
              in case mergeToGraph H [NodeDef nodeDef1] True False None v of
                   (Inl e, v1) \<Rightarrow> (Inl e, v1)
                 | (Inr r, v1) \<Rightarrow>
                     (case viz v1 of
                        None \<Rightarrow> (Inr None, v1)
                      | Some g1 \<Rightarrow>
                          (let node1 = by_id g1 (toId E ident)
                           in case buildEdges stores node1 v1 of
                                Inl e \<Rightarrow> (Inl e, v1)
                              | Inr edges \<Rightarrow>
                                  (case mergeToGraph H (map EdgeDef edges) True False None v1 of
                                     (Inl e, v2) \<Rightarrow> (Inl e, v2)
                                   | (Inr correctEdges, v2) \<Rightarrow>
                                       (Inr (Some (correctEdges, node1)), v2)))))))"

definition refreshPrune :: "env \<Rightarrow> viewHost \<Rightarrow> vizId \<Rightarrow> element list \<Rightarrow> mergedToGraph \<Rightarrow> view
    \<Rightarrow> (error + unit) \<times> view" where
  "refreshPrune E H ident node correctEdges v =
     (case viz v of
        None \<Rightarrow> (Inl TypeError, v)
      | Some g \<Rightarrow>
          (let edgesToRemove =
                 filter (\<lambda>edge. \<not> hasClass [edge] ''terminal-connection'')
                   (difference (connectedEdges g node) (merged correctEdges));
               removed = filter (\<lambda>e. e \<in> set g) edgesToRemove;
               v1 = v\<lparr> viz := Some (removeElements g edgesToRemove) \<rparr>
           in case (if length removed > 0 \<or> length (added correctEdges) > 0
                    then onGraphChanged H True True v1 else (Inr (), v1)) of
                (Inl e, v2) \<Rightarrow> (Inl e, v2)
              | (Inr u, v2) \<Rightarrow>
                  (case getFile E ident of
                     None \<Rightarrow> (Inr (), v2)
                   | Some file \<Rightarrow>
                       if str_includes (cachedRead E file) ''+++''
                       then (Inr (), trigger (NodeContentAppended (map el_id node)) v2)
                       else (Inr (), v2))))"

definition refreshNode :: "env \<Rightarrow> viewHost \<Rightarrow> store list \<Rightarrow> vizId \<Rightarrow> view \<Rightarrow> (error + unit) \<times> view" where
  "refreshNode E H stores ident v =
     (if \<not> vizReady v then (Inr (), v)
      else
        (case viz v of
           None \<Rightarrow> (Inr (), v)
         | Some g \<Rightarrow>
             (let idS = toId E ident;
                  node = by_id g idS
              in if getFile E ident = None then
                   (if objectTruthy node
                    then onGraphChanged H True True (v\<lparr> viz := Some (removeElements g node) \<rparr>)
                    else (Inr (), v))
                 else
                   (case refreshRecompute E H stores ident node v of
                      (Inl e, v1) \<Rightarrow> (Inl e, v1)
                    | (Inr None, v1) \<Rightarrow> (Inr (), v1)
                    | (Inr (Some (correctEdges, node1)), v1) \<Rightarrow>
                        refreshPrune E H ident node1 correctEdges v1))))"


section \<open>What the store is expected to compute\<close>

text \<open>
  The definitions of this section are not taken from the source: they state, in
  closed form, what the loops of the store are compared with, and the assumptions
  on the host that a claim needs.
\<close>

text \<open>The id of the node a reference points to, as \<open>createEdges\<close> computes it.\<close>

definition linkTarget :: "env \<Rightarrow> tfile \<Rightarrow> reference \<Rightarrow> string" where
  "linkTarget E srcFile r = toId E (getOtherId E r (f_path srcFile))"

text \<open>The references whose target is one of the candidate nodes, in document order.\<close>

definition acceptedLinks :: "env \<Rightarrow> tfile \<Rightarrow> element list \<Rightarrow> reference list \<Rightarrow> reference list" where
  "acceptedLinks E srcFile toNodes refs =
     filter (\<lambda>r. linkTarget E srcFile r \<in> el_id ` set toNodes) refs"

text \<open>
  The edges of one (source, target) pair: the references to that target, in
  document order, the one at position \<open>k\<close> (counted from 0) with the id made of
  the source id, \<open>->\<close>, the target id and the decimal of \<open>k + 1\<close>.
\<close>

definition pairEdges :: "env \<Rightarrow> tfile \<Rightarrow> string \<Rightarrow> string list \<Rightarrow> reference list \<Rightarrow> string \<Rightarrow> edgeDefinition list" where
  "pairEdges E srcFile srcId content refs t =
     map (\<lambda>(k, r). buildEdge E content srcId t (pairId srcId t @ string_of_nat (Suc k)) r)
       (enumerate 0 (filter (\<lambda>r. linkTarget E srcFile r = t) refs))"

text \<open>
  The edges extracted from a document towards candidate nodes, pair by pair: one
  group per target, the targets in the order of their first reference. A file
  that is not a note, or has no cached metadata, has none.
\<close>

definition pairwiseEdges :: "env \<Rightarrow> tfile \<Rightarrow> string \<Rightarrow> element list \<Rightarrow> edgeDefinition list list" where
  "pairwiseEdges E srcFile srcId toNodes =
     (if f_extension srcFile \<noteq> ''md'' then []
      else case getFileCache E srcFile of
             None \<Rightarrow> []
           | Some cache \<Rightarrow>
               map (pairEdges E srcFile srcId (split_on (CHR 0x0A) (cachedRead E srcFile))
                      (acceptedLinks E srcFile toNodes (iterLinks cache)))
                 (firstOccurrences (map (linkTarget E srcFile)
                                      (acceptedLinks E srcFile toNodes (iterLinks cache)))))"

definition isInline :: "edgeDefinition \<Rightarrow> bool" where
  "isInline e = (e_classes e = ClassString '' inline'')"

definition withContext :: "edgeDefinition \<Rightarrow> string \<Rightarrow> edgeDefinition" where
  "withContext e c = e\<lparr> e_data := (e_data e)\<lparr> d_context := c \<rparr> \<rparr>"

definition withCount :: "edgeDefinition \<Rightarrow> nat \<Rightarrow> edgeDefinition" where
  "withCount e n = e\<lparr> e_data := (e_data e)\<lparr> d_edgeCount := n \<rparr> \<rparr>"

text \<open>
  The edge-merge law for one pair: the typed edges as they are, in their order,
  followed (when the pair has inline edges) by one edge, the first inline edge
  with the contexts of all of them joined by the separator, in order, and their
  number as its count.
\<close>

definition mergedGroup :: "edgeDefinition list \<Rightarrow> edgeDefinition list" where
  "mergedGroup es =
     filter (\<lambda>e. \<not> isInline e) es @
     (case filter isInline es of
        [] \<Rightarrow> []
      | e # rest \<Rightarrow>
          [withCount
             (withContext e (join_sep contextSeparator (map (\<lambda>x. d_context (e_data x)) (e # rest))))
             (length (e # rest))])"

text \<open>
  A requested id contributes nothing to a neighbourhood when its document cannot
  be found or has no cached metadata.
\<close>

definition missingDocument :: "env \<Rightarrow> vizId \<Rightarrow> bool" where
  "missingDocument E nodeId =
     (case getFile E nodeId of
        None \<Rightarrow> True
      | Some file \<Rightarrow> getFileCache E file = None)"

text \<open>
  The host finds a document by its own name: whenever some link resolves to a
  file, the name of that file resolves too, from the given source path.
\<close>

definition findsByName :: "env \<Rightarrow> string \<Rightarrow> bool" where
  "findsByName E sourcePath =
     (\<forall>path s file. getFirstLinkpathDest E path s = Some file \<longrightarrow>
        getFirstLinkpathDest E (f_name file) sourcePath \<noteq> None)"

text \<open>
  The edges a refresh is to remove: those attached to the refreshed node that
  are not among the recomputed ones and do not carry the class of a protected
  connection.
\<close>

definition staleEdge :: "element list \<Rightarrow> mergedToGraph \<Rightarrow> element \<Rightarrow> bool" where
  "staleEdge node correctEdges e =
     (attachedTo node e \<and> el_id e \<notin> el_id ` set (merged correctEdges) \<and>
      \<not> hasClass [e] ''terminal-connection'')"


text \<open>
  What the structural-change notification leaves of an element: its position,
  its definition but for the degree and the length of the name, and, for an
  edge, all of it. The classes of a node are not among what it leaves.
\<close>

definition withoutDerived :: "elementDefinition \<Rightarrow> elementDefinition" where
  "withoutDerived d =
     (case d of
        NodeDef n \<Rightarrow> NodeDef (n\<lparr> nd_data := (nd_data n)\<lparr> n_degree := None, n_nameLength := None \<rparr> \<rparr>)
      | EdgeDef e \<Rightarrow> EdgeDef e)"

definition sameElement :: "element \<Rightarrow> element \<Rightarrow> bool" where
  "sameElement e e' =
     (el_position e' = el_position e \<and> withoutDerived (el_def e') = withoutDerived (el_def e) \<and>
      (\<not> isNode e \<longrightarrow> e' = e))"

text \<open>The edges one node contributes as a source in \<open>connectNodes\<close>.\<close>

definition nodeEdges :: "env \<Rightarrow> bool \<Rightarrow> element list \<Rightarrow> element \<Rightarrow> edgeDefinition list" where
  "nodeEdges E mergeEdges toNodes node =
     (if v_storeId (fromNode E node) = storeId then
        (case getFile E (fromNode E node) of
           Some file \<Rightarrow> createEdges E mergeEdges file (toId E (fromNode E node)) toNodes
         | None \<Rightarrow> [])
      else [])"


section \<open>A small vault\<close>

text \<open>
  Two notes. \<open>A.md\<close> mentions \<open>B\<close> on its first two lines and declares it once in
  its front matter; \<open>B.md\<close> is empty. The collaborators are the simplest ones
  that fit: a link path is the link text, a note is found by its name with or
  without extension, an id is the store tag, a colon and the name, and a body
  reference parses to an untyped inline edge whose context is its line.
\<close>

definition fileA :: tfile where
  "fileA = \<lparr> f_path = ''A.md'', f_name = ''A.md'', f_extension = ''md'' \<rparr>"

definition fileB :: tfile where
  "fileB = \<lparr> f_path = ''B.md'', f_name = ''B.md'', f_extension = ''md'' \<rparr>"

definition cacheA :: cachedMetadata where
  "cacheA =
     \<lparr> c_refs = [\<lparr> rc_link = ''B'', rc_original = ''[[B]]'', rc_displayText = None, rc_line = 0 \<rparr>,
                 \<lparr> rc_link = ''B'', rc_original = ''[[B]]'', rc_displayText = None, rc_line = 1 \<rparr>],
       c_frontmatterLinks = Some [\<lparr> fl_link = ''B'', fl_key = ''next_step.0'' \<rparr>] \<rparr>"

definition cacheB :: cachedMetadata where
  "cacheB = \<lparr> c_refs = [], c_frontmatterLinks = None \<rparr>"

definition vaultNode :: "tfile \<Rightarrow> nodeDefinition" where
  "vaultNode f =
     \<lparr> nd_group = ''nodes'',
       nd_data = \<lparr> n_id = ''core:'' @ f_name f, n_name = f_name f, n_linkedNodeIds = None,
                   n_degree = None, n_nameLength = None \<rparr>,
       nd_classes = ClassString '''' \<rparr>"

definition vaultDangling :: "string \<Rightarrow> nodeDefinition" where
  "vaultDangling path =
     \<lparr> nd_group = ''nodes'',
       nd_data = \<lparr> n_id = ''core:'' @ path, n_name = path, n_linkedNodeIds = None,
                   n_degree = None, n_nameLength = None \<rparr>,
       nd_classes = ClassString ''dangling'' \<rparr>"

definition vaultParse :: "referenceCache \<Rightarrow> string list \<Rightarrow> string \<Rightarrow> string \<Rightarrow> string \<Rightarrow> string \<Rightarrow> edgeDefinition" where
  "vaultParse rc content ident source target prefix =
     \<lparr> e_group = ''edges'',
       e_data = \<lparr> d_id = ident, d_source = source, d_target = target,
                  d_context = (if rc_line rc < length content then content ! rc_line rc else []),
                  d_edgeCount = 1, d_type = None \<rparr>,
       e_classes = ClassString '' inline'' \<rparr>"

definition vault :: env where
  "vault =
     \<lparr> getLinkpath = (\<lambda>link. link),
       getFirstLinkpathDest =
         (\<lambda>path sourcePath.
            if path = ''A'' \<or> path = ''A.md'' then Some fileA
            else if path = ''B'' \<or> path = ''B.md'' then Some fileB
            else None),
       getFileCache = (\<lambda>f. if f = fileA then Some cacheA else if f = fileB then Some cacheB else None),
       cachedRead = (\<lambda>f. if f = fileA then ''see [[B]]'' @ newline @ ''and [[B]]'' else []),
       resolvedLinks = [(''A.md'', [''B.md'']), (''B.md'', [])],
       getAbstractFileByPath =
         (\<lambda>path. if path = ''A.md'' then Some fileA else if path = ''B.md'' then Some fileB else None),
       toId = (\<lambda>v. v_storeId v @ '':'' @ v_id v),
       fromId = (\<lambda>s. \<lparr> v_id = drop 5 s, v_storeId = take 4 s \<rparr>),
       fromFile = (\<lambda>f. \<lparr> v_id = f_name f, v_storeId = ''core'' \<rparr>),
       parseRefCache = vaultParse,
       typedLinkPrefix = ''-'',
       nodeFromFile = vaultNode,
       nodeDangling = vaultDangling \<rparr>"

definition liveNode :: "tfile \<Rightarrow> element" where
  "liveNode f = \<lparr> el_def = NodeDef (vaultNode f), el_classes = [], el_position = (0, 0) \<rparr>"


text \<open>
  A live graph over the vault: the node of \<open>A.md\<close>, pinned and moved by the
  user; a heuristic that places every new node at the same spot; a node of
  another store with a protected edge to \<open>A.md\<close>; and an edge for a fourth mention
  of \<open>B\<close>, which the document no longer has.
\<close>

definition pinnedA :: element where
  "pinnedA = \<lparr> el_def = NodeDef (vaultNode fileA), el_classes = [''pinned''], el_position = (3, 4) \<rparr>"

definition originPlacement :: placement where
  "originPlacement g parents e = (1, 1)"

text \<open>A query filter that lets the nodes through whose name holds the query.\<close>

definition nameFilter :: "string \<Rightarrow> element list \<Rightarrow> element list" where
  "nameFilter query nodes =
     filter (\<lambda>e. case el_def e of
                   NodeDef n \<Rightarrow> str_includes (n_name (nd_data n)) query
                 | EdgeDef d \<Rightarrow> False) nodes"

definition vaultHost :: viewHost where
  "vaultHost = \<lparr> placeNode = originPlacement, queryFilter = nameFilter \<rparr>"

definition terminalNode :: element where
  "terminalNode =
     \<lparr> el_def = NodeDef \<lparr> nd_group = ''nodes'',
                            nd_data = \<lparr> n_id = ''terminal:1'', n_name = ''Terminal 1'',
                                        n_linkedNodeIds = None, n_degree = None, n_nameLength = None \<rparr>,
                            nd_classes = ClassString ''terminal'' \<rparr>,
       el_classes = [''terminal''], el_position = (7, 7) \<rparr>"

definition terminalEdge :: element where
  "terminalEdge =
     \<lparr> el_def = EdgeDef \<lparr> e_group = ''edges'',
                            e_data = \<lparr> d_id = ''terminal:1->core:A.md'', d_source = ''terminal:1'',
                                       d_target = ''core:A.md'', d_context = [], d_edgeCount = 1,
                                       d_type = None \<rparr>,
                            e_classes = ClassString ''terminal-connection'' \<rparr>,
       el_classes = [''terminal-connection''], el_position = (0, 0) \<rparr>"

definition staleEdgeAB :: element where
  "staleEdgeAB =
     \<lparr> el_def = EdgeDef \<lparr> e_group = ''edges'',
                            e_data = \<lparr> d_id = ''core:A.md->core:B.md4'', d_source = ''core:A.md'',
                                       d_target = ''core:B.md'', d_context = ''once more [[B]]'',
                                       d_edgeCount = 1, d_type = None \<rparr>,
                            e_classes = ClassString '' inline'' \<rparr>,
       el_classes = [''inline''], el_position = (0, 0) \<rparr>"


text \<open>
  The two edges from \<open>A.md\<close> to \<open>B.md\<close> with edge merging enabled, and the graph
  above.
\<close>

definition typedEdgeAB :: edgeDefinition where
  "typedEdgeAB =
     \<lparr> e_group = ''edges'',
       e_data = \<lparr> d_id = ''core:A.md->core:B.md3'', d_source = ''core:A.md'', d_target = ''core:B.md'',
                  d_context = [], d_edgeCount = 1, d_type = Some ''next step'' \<rparr>,
       e_classes = ClassList [''next_step'', ''type-next_step'', ''type-next_step''] \<rparr>"

definition mergedEdgeAB :: edgeDefinition where
  "mergedEdgeAB =
     \<lparr> e_group = ''edges'',
       e_data = \<lparr> d_id = ''core:A.md->core:B.md1'', d_source = ''core:A.md'', d_target = ''core:B.md'',
                  d_context = ''see [[B]]'' @ contextSeparator @ ''and [[B]]'',
                  d_edgeCount = 2, d_type = None \<rparr>,
       e_classes = ClassString '' inline'' \<rparr>"

definition vaultGraph :: "element list" where
  "vaultGraph = [pinnedA, liveNode fileB, terminalNode, staleEdgeAB, terminalEdge]"

text \<open>
  A view on a graph, with edge merging enabled, an empty search filter and one
  local style group, for the nodes whose name holds \<open>B\<close>.
\<close>

definition viewOn :: "element list \<Rightarrow> view" where
  "viewOn g =
     \<lparr> vizReady = True, viz = Some g, settings_mergeEdges = True, settings_filter = [],
       settings_styleGroups = [''B''], plugin_globalStyleGroups = None, events = [] \<rparr>"

definition vaultView :: view where
  "vaultView = viewOn vaultGraph"

text \<open>
  A node with what the structural-change notification sets on it: its degree,
  the length of its name, and its classes.
\<close>

definition notified :: "nat \<Rightarrow> nat \<Rightarrow> string list \<Rightarrow> element \<Rightarrow> element" where
  "notified d l cs e =
     (case el_def e of
        NodeDef n \<Rightarrow>
          e\<lparr> el_def := NodeDef (n\<lparr> nd_data := (nd_data n)\<lparr> n_degree := Some d, n_nameLength := Some l \<rparr> \<rparr>),
             el_classes := cs \<rparr>
      | EdgeDef x \<Rightarrow> e)"


text \<open>
  A placeholder node for the missing note \<open>Gone\<close>, with a protected edge from
  the node of the other store.
\<close>

definition goneNode :: element where
  "goneNode = \<lparr> el_def = NodeDef (vaultDangling ''Gone''), el_classes = [''dangling''], el_position = (5, 5) \<rparr>"

definition terminalEdgeGone :: element where
  "terminalEdgeGone =
     \<lparr> el_def = EdgeDef \<lparr> e_group = ''edges'',
                            e_data = \<lparr> d_id = ''terminal:1->core:Gone'', d_source = ''terminal:1'',
                                       d_target = ''core:Gone'', d_context = [], d_edgeCount = 1,
                                       d_type = None \<rparr>,
                            e_classes = ClassString ''terminal-connection'' \<rparr>,
       el_classes = [''terminal-connection''], el_position = (0, 0) \<rparr>"


section \<open>Properties of the string operations\<close>

lemma split_on_not_Nil: "split_on c s \<noteq> []"
  by (induction s) (auto split: list.splits)

lemma split_on_no_sep: "c \<notin> set s \<Longrightarrow> split_on c s = [s]"
  by (induction s) auto

lemma length_split_on: "length (split_on c s) = Suc (length (filter (\<lambda>x. x = c) s))"
  by (induction s) (auto split: list.splits simp: split_on_not_Nil)

lemma split_on_several: "1 < length (split_on c s) \<longleftrightarrow> c \<in> set s"
  by (simp add: length_split_on filter_empty_conv)

lemma split_on_append_last:
  "c \<notin> set b \<Longrightarrow> split_on c (a @ c # b) = split_on c a @ [b]"
proof (induction a)
  case Nil
  then show ?case by (simp add: split_on_no_sep)
next
  case (Cons x a)
  then show ?case
    by (cases "split_on c a") (auto simp: split_on_not_Nil)
qed

lemma join_sep_Cons:
  "ss \<noteq> [] \<Longrightarrow> join_sep sep (s # ss) = s @ sep @ join_sep sep ss"
  by (cases ss) auto

lemma join_split_on: "join_sep [d] (split_on c s) = replace_char c d s"
proof (induction s)
  case Nil
  then show ?case by (simp add: replace_char_def)
next
  case (Cons x s)
  show ?case
  proof (cases "x = c")
    case True
    then show ?thesis
      using Cons by (simp add: join_sep_Cons split_on_not_Nil replace_char_def)
  next
    case False
    obtain t ts where ts: "split_on c s = t # ts"
      using split_on_not_Nil [of c s] by (cases "split_on c s") auto
    show ?thesis
      using False Cons ts by (cases ts) (auto simp: replace_char_def)
  qed
qed

lemma frontmatterType_dotted:
  assumes "CHR ''.'' \<notin> set b"
  shows "frontmatterType (a @ ''.'' @ b) = replace_char (CHR ''.'') (CHR '','') a"
proof -
  have s: "split_on (CHR ''.'') (a @ ''.'' @ b) = split_on (CHR ''.'') a @ [b]"
    using split_on_append_last [OF assms, of a] by simp
  have "1 < length (split_on (CHR ''.'') (a @ ''.'' @ b))"
    unfolding split_on_several by simp
  then show ?thesis
    unfolding frontmatterType_def Let_def s
    by (simp add: join_default_def join_split_on)
qed

lemma frontmatterType_bare: "CHR ''.'' \<notin> set key \<Longrightarrow> frontmatterType key = key"
  by (simp add: frontmatterType_def split_on_no_sep)


section \<open>The relation type of a front-matter reference\<close>

text \<open>
  C1, as the source has it. A front-matter key with a dot is cut at its last dot:
  the relation type is the part before that dot (the segments but the last, joined
  by \<open>join()\<close>, so that a dot left among them reads as a comma), and the last
  segment is dropped. A key without a dot is its own type. The \<open>type\<close> shown on
  the edge is that type with every underscore turned into a space; the classes of
  the edge are built from the type as it is: the type, the type prefixed with
  \<open>type-\<close>, and the prefixed type with spaces turned into hyphens.
\<close>

theorem frontmatter_edge_type:
  "(CHR ''.'' \<notin> set b \<longrightarrow>
      frontmatterType (a @ ''.'' @ b) = replace_char (CHR ''.'') (CHR '','') a) \<and>
   (CHR ''.'' \<notin> set key \<longrightarrow> frontmatterType key = key) \<and>
   d_type (e_data (frontmatterEdge ident srcId otherId link)) =
     Some (replace_char (CHR ''_'') (CHR '' '') (frontmatterType (fl_key link))) \<and>
   e_classes (frontmatterEdge ident srcId otherId link) =
     ClassList [frontmatterType (fl_key link),
                ''type-'' @ frontmatterType (fl_key link),
                ''type-'' @ replace_char (CHR '' '') (CHR ''-'') (frontmatterType (fl_key link))]"
  using frontmatterType_dotted [of b a] frontmatterType_bare [of key]
  by (simp add: frontmatterEdge_def Let_def transformEdgeLabel_def)

theorem frontmatter_edge_type_witness:
  "frontmatterType ''next_step.0'' = ''next_step'' \<and>
   frontmatterType ''blocked_by'' = ''blocked_by'' \<and>
   d_type (e_data (frontmatterEdge ''a->b1'' ''a'' ''b'' \<lparr> fl_link = ''b'', fl_key = ''next_step.0'' \<rparr>)) =
     Some ''next step'' \<and>
   e_classes (frontmatterEdge ''a->b1'' ''a'' ''b'' \<lparr> fl_link = ''b'', fl_key = ''next_step.0'' \<rparr>) =
     ClassList [''next_step'', ''type-next_step'', ''type-next_step'']"
  using frontmatter_edge_type [of "''0''" "''next_step''" "''blocked_by''" "''a->b1''" "''a''" "''b''"
      "\<lparr> fl_link = ''b'', fl_key = ''next_step.0'' \<rparr>"]
  by (simp add: replace_char_def)

text \<open>
  C1 as the specification words it: the type of \<open>related.sibling\<close> would be its
  last segment, \<open>sibling\<close>. The source yields \<open>related\<close>.
\<close>

theorem frontmatter_last_segment_counterexample:
  "d_type (e_data (frontmatterEdge ''a->b1'' ''a'' ''b'' \<lparr> fl_link = ''b'', fl_key = ''related.sibling'' \<rparr>)) =
     Some ''related'' \<and>
   d_type (e_data (frontmatterEdge ''a->b1'' ''a'' ''b'' \<lparr> fl_link = ''b'', fl_key = ''related.sibling'' \<rparr>)) \<noteq>
     Some (last (split_on (CHR ''.'') ''related.sibling''))"
  by (simp add: frontmatterEdge_def frontmatterType_def Let_def transformEdgeLabel_def
      replace_char_def join_default_def)

section \<open>The edge record built by \<open>createEdges\<close>\<close>

lemma firstOccurrences_snoc:
  "firstOccurrences (xs @ [x]) = (if x \<in> set xs then firstOccurrences xs else firstOccurrences xs @ [x])"
  by (simp add: firstOccurrences_def)

lemma set_firstOccurrences [simp]: "set (firstOccurrences xs) = set xs"
  by (simp add: firstOccurrences_def)

lemma distinct_firstOccurrences [simp]: "distinct (firstOccurrences xs)"
  by (simp add: firstOccurrences_def)

lemma map_of_keyed:
  "inj f \<Longrightarrow> map_of (map (\<lambda>t. (f t, g t)) ts) (f t) = (if t \<in> set ts then Some (g t) else None)"
  by (induction ts) (auto dest: injD)

lemma update_keyed:
  "inj f \<Longrightarrow> distinct ts \<Longrightarrow> t \<in> set ts \<Longrightarrow>
   AList.update (f t) v (map (\<lambda>t. (f t, g t)) ts) = map (\<lambda>u. (f u, if u = t then v else g u)) ts"
  by (induction ts) (auto dest: injD)

lemma inj_pairId: "inj (pairId srcId)"
  by (rule injI) (simp add: pairId_def)

lemma by_id_nonempty: "0 < length (by_id coll i) \<longleftrightarrow> i \<in> el_id ` set coll"
  by (auto simp: by_id_def filter_empty_conv)

lemma pairEdges_snoc:
  "pairEdges E srcFile srcId content (rs @ [r]) t =
     (if linkTarget E srcFile r = t
      then pairEdges E srcFile srcId content rs t @
           [buildEdge E content srcId t
              (pairId srcId t @ string_of_nat (Suc (length (pairEdges E srcFile srcId content rs t)))) r]
      else pairEdges E srcFile srcId content rs t)"
  by (simp add: pairEdges_def enumerate_append_eq)

text \<open>One call of the callback on a record that is keyed by targets.\<close>

lemma addLink_keyed:
  assumes "distinct ts"
  shows "addLink E srcFile srcId toNodes content (map (\<lambda>t. (pairId srcId t, g t)) ts) r =
     (let t = linkTarget E srcFile r
      in if t \<notin> el_id ` set toNodes then map (\<lambda>t. (pairId srcId t, g t)) ts
         else if t \<in> set ts then
           map (\<lambda>u. (pairId srcId u,
                  if u = t then g t @ [buildEdge E content srcId t
                                         (pairId srcId t @ string_of_nat (Suc (length (g t)))) r]
                  else g u)) ts
         else map (\<lambda>t. (pairId srcId t, g t)) ts @
              [(pairId srcId t, [buildEdge E content srcId t (pairId srcId t @ string_of_nat (Suc 0)) r])])"
proof -
  let ?t = "linkTarget E srcFile r"
  have look: "map_of (map (\<lambda>t. (pairId srcId t, g t)) ts) (pairId srcId ?t) =
      (if ?t \<in> set ts then Some (g ?t) else None)"
    by (rule map_of_keyed [OF inj_pairId])
  show ?thesis
    unfolding addLink_def Let_def by_id_nonempty linkTarget_def [symmetric] look
    using assms by (simp add: update_keyed [OF inj_pairId])
qed

lemma foldl_addLink:
  "foldl (addLink E srcFile srcId toNodes content) [] refs =
     map (\<lambda>t. (pairId srcId t, pairEdges E srcFile srcId content (acceptedLinks E srcFile toNodes refs) t))
       (firstOccurrences (map (linkTarget E srcFile) (acceptedLinks E srcFile toNodes refs)))"
proof (induction refs rule: rev_induct)
  case Nil
  then show ?case by (simp add: acceptedLinks_def firstOccurrences_def)
next
  case (snoc r refs)
  let ?acc = "acceptedLinks E srcFile toNodes refs"
  let ?ts = "firstOccurrences (map (linkTarget E srcFile) ?acc)"
  let ?t = "linkTarget E srcFile r"
  let ?g = "pairEdges E srcFile srcId content ?acc"
  have step: "foldl (addLink E srcFile srcId toNodes content) [] (refs @ [r]) =
      addLink E srcFile srcId toNodes content (map (\<lambda>t. (pairId srcId t, ?g t)) ?ts) r"
    using snoc by simp
  show ?case
  proof (cases "?t \<in> el_id ` set toNodes")
    case False
    then have "acceptedLinks E srcFile toNodes (refs @ [r]) = ?acc"
      by (simp add: acceptedLinks_def)
    then show ?thesis
      unfolding step using False by (simp add: addLink_keyed Let_def)
  next
    case True
    then have acc: "acceptedLinks E srcFile toNodes (refs @ [r]) = ?acc @ [r]"
      by (simp add: acceptedLinks_def)
    show ?thesis
    proof (cases "?t \<in> set ?ts")
      case seen: True
      then have ts: "firstOccurrences (map (linkTarget E srcFile) (?acc @ [r])) = ?ts"
        by (simp add: firstOccurrences_snoc)
      show ?thesis
        unfolding step acc ts using True seen
        by (simp add: addLink_keyed Let_def pairEdges_snoc)
    next
      case unseen: False
      then have ts: "firstOccurrences (map (linkTarget E srcFile) (?acc @ [r])) = ?ts @ [?t]"
        by (simp add: firstOccurrences_snoc)
      have empty: "pairEdges E srcFile srcId content ?acc ?t = []"
      proof -
        have "filter (\<lambda>x. linkTarget E srcFile x = ?t) ?acc = []"
          using unseen by (force simp: filter_empty_conv image_iff)
        then show ?thesis by (simp add: pairEdges_def)
      qed
      have fresh: "\<forall>x\<in>set ?acc. ?t \<noteq> linkTarget E srcFile x"
        using unseen by (force simp: image_iff)
      show ?thesis
        unfolding step acc ts using True unseen fresh
        by (simp add: addLink_keyed Let_def pairEdges_snoc empty)
    qed
  qed
qed

lemma collectEdges_closed:
  "collectEdges E srcFile srcId toNodes cache =
     map (\<lambda>t. (pairId srcId t,
            pairEdges E srcFile srcId (split_on (CHR 0x0A) (cachedRead E srcFile))
              (acceptedLinks E srcFile toNodes (iterLinks cache)) t))
       (firstOccurrences (map (linkTarget E srcFile) (acceptedLinks E srcFile toNodes (iterLinks cache))))"
  by (simp add: collectEdges_def foldl_addLink)

lemma collectEdges_cong:
  "el_id ` set toNodes = el_id ` set toNodes' \<Longrightarrow>
   collectEdges E srcFile srcId toNodes cache = collectEdges E srcFile srcId toNodes' cache"
  by (simp add: collectEdges_closed acceptedLinks_def)


section \<open>The merge of inline edges\<close>

lemma join_sep_concat:
  "join_sep sep (c # cs) = c @ concat (map (\<lambda>x. sep @ x) cs)"
  by (induction cs arbitrary: c) auto

lemma mergeInline_Some:
  "mergeInline es (ret, Some ie, cnt) =
     (ret @ filter (\<lambda>e. \<not> isInline e) es,
      Some (withContext ie (d_context (e_data ie) @
              concat (map (\<lambda>x. contextSeparator @ d_context (e_data x)) (filter isInline es)))),
      cnt + length (filter isInline es))"
proof (induction es arbitrary: ret ie cnt)
  case Nil
  then show ?case by (simp add: withContext_def)
next
  case (Cons e es)
  then show ?case by (simp add: isInline_def withContext_def)
qed

lemma mergeInline_None:
  "mergeInline es (ret, None, cnt) =
     (ret @ filter (\<lambda>e. \<not> isInline e) es,
      (case filter isInline es of
         [] \<Rightarrow> None
       | e # rest \<Rightarrow> Some (withContext e (join_sep contextSeparator (map (\<lambda>x. d_context (e_data x)) (e # rest))))),
      (case filter isInline es of [] \<Rightarrow> cnt | e # rest \<Rightarrow> length (e # rest)))"
proof (induction es arbitrary: ret)
  case Nil
  then show ?case by simp
next
  case (Cons e es)
  show ?case
  proof (cases "isInline e")
    case True
    then show ?thesis
      by (simp add: mergeInline_Some join_sep_concat isInline_def [symmetric] comp_def)
  next
    case False
    then show ?thesis
      using Cons by (simp add: isInline_def [symmetric])
  qed
qed

lemma mergeGroups_closed:
  "mergeGroups groups ret = ret @ concat (map (\<lambda>g. mergedGroup (snd g)) groups)"
proof (induction groups arbitrary: ret)
  case Nil
  then show ?case by simp
next
  case (Cons g groups)
  obtain k es where g: "g = (k, es)" by (cases g)
  show ?case
    unfolding g using Cons
    by (cases "filter isInline es") (simp_all add: mergeInline_None mergedGroup_def withCount_def)
qed

lemma connectLoop_closed:
  "connectLoop E m nodes toNodes edges = edges @ concat (map (nodeEdges E m toNodes) nodes)"
  by (induction nodes arbitrary: edges) (auto simp: nodeEdges_def Let_def split: option.splits)

text \<open>
  C3. With edge merging enabled, the edges \<open>createEdges\<close> returns for a document
  are, pair by pair (the targets in the order of their first reference), the
  merged group of that pair's edges: its typed edges one by one, never merged,
  followed by exactly one edge for all its inline edges, whose count is their
  number and whose context is their contexts joined by the separator in the
  order of the references. In the small vault, two inline mentions with contexts
  \<open>see [[B]]\<close> and \<open>and [[B]]\<close> yield one edge of count 2 with both contexts in
  that order, next to the typed edge of the front matter.
\<close>

theorem createEdges_merge_law:
  "createEdges E True srcFile srcId toNodes =
     concat (map mergedGroup (pairwiseEdges E srcFile srcId toNodes))"
  by (simp add: createEdges_def pairwiseEdges_def Let_def collectEdges_closed mergeGroups_closed
      comp_def split: option.splits)

lemma string_of_nat_small:
  "string_of_nat (Suc 0) = ''1''"
  "string_of_nat (Suc (Suc 0)) = ''2''"
  "string_of_nat (Suc (Suc (Suc 0))) = ''3''"
  by (simp_all add: string_of_nat.simps digit_char_def)

lemmas vault_simps =
  iterLinks_def cacheA_def cacheB_def acceptedLinks_def linkTarget_def getOtherId_def vault_def
  fileA_def fileB_def liveNode_def el_id_def vaultNode_def storeId_def firstOccurrences_def
  pairEdges_def buildEdge_def vaultParse_def frontmatterEdge_def frontmatterType_def
  transformEdgeLabel_def replace_char_def join_default_def pairId_def string_of_nat_small
  newline_def Let_def

theorem createEdges_merge_law_witness:
  "createEdges vault True fileA ''core:A.md'' [liveNode fileB] =
     [\<lparr> e_group = ''edges'',
        e_data = \<lparr> d_id = ''core:A.md->core:B.md3'', d_source = ''core:A.md'', d_target = ''core:B.md'',
                   d_context = [], d_edgeCount = 1, d_type = Some ''next step'' \<rparr>,
        e_classes = ClassList [''next_step'', ''type-next_step'', ''type-next_step''] \<rparr>,
      \<lparr> e_group = ''edges'',
        e_data = \<lparr> d_id = ''core:A.md->core:B.md1'', d_source = ''core:A.md'', d_target = ''core:B.md'',
                   d_context = ''see [[B]]'' @ contextSeparator @ ''and [[B]]'',
                   d_edgeCount = 2, d_type = None \<rparr>,
        e_classes = ClassString '' inline'' \<rparr>]"
  using createEdges_merge_law [of vault fileA "''core:A.md''" "[liveNode fileB]"]
  by (simp add: pairwiseEdges_def vault_simps mergedGroup_def isInline_def withCount_def withContext_def)

text \<open>
  C9. The edges extracted from a document depend on the candidate targets only
  through the set of their ids, so that extracting again with the same corpus and
  the same candidates gives the same edges. Without merging they are, pair by
  pair, the edges of the references to that target, the one at position \<open>k\<close>
  built with the id made of the source id, the target id and \<open>k + 1\<close>: that id is
  the \<open>id\<close> of a front-matter edge, and the \<open>id\<close> handed to \<open>parseRefCache\<close> for a
  reference of the body, whose edge keeps the \<open>id\<close> that function gave it.
\<close>

theorem createEdges_deterministic_ids:
  "(el_id ` set toNodes = el_id ` set toNodes' \<longrightarrow>
      createEdges E m srcFile srcId toNodes = createEdges E m srcFile srcId toNodes') \<and>
   createEdges E False srcFile srcId toNodes = concat (pairwiseEdges E srcFile srcId toNodes) \<and>
   d_id (e_data (buildEdge E content srcId t ident (FrontmatterRef link))) = ident \<and>
   d_id (e_data (buildEdge E content srcId t ident (RefCacheRef rc))) =
     d_id (e_data (parseRefCache E rc content ident srcId t (typedLinkPrefix E)))"
proof -
  have "createEdges E m srcFile srcId toNodes = createEdges E m srcFile srcId toNodes'"
    if "el_id ` set toNodes = el_id ` set toNodes'"
    by (simp add: createEdges_def collectEdges_cong [OF that] split: option.splits)
  moreover have "createEdges E False srcFile srcId toNodes = concat (pairwiseEdges E srcFile srcId toNodes)"
    by (simp add: createEdges_def pairwiseEdges_def Let_def collectEdges_closed comp_def
        split: option.splits)
  moreover have "d_id (e_data (buildEdge E content srcId t ident (FrontmatterRef link))) = ident"
    by (simp add: buildEdge_def frontmatterEdge_def Let_def)
  moreover have "d_id (e_data (buildEdge E content srcId t ident (RefCacheRef rc))) =
     d_id (e_data (parseRefCache E rc content ident srcId t (typedLinkPrefix E)))"
    by (simp add: buildEdge_def Let_def split: option.splits)
  ultimately show ?thesis by blast
qed

theorem createEdges_deterministic_ids_witness:
  "createEdges vault False fileA ''core:A.md'' [liveNode fileB] =
     createEdges vault False fileA ''core:A.md'' [liveNode fileB, liveNode fileB] \<and>
   map (\<lambda>e. d_id (e_data e)) (createEdges vault False fileA ''core:A.md'' [liveNode fileB]) =
     [''core:A.md->core:B.md1'', ''core:A.md->core:B.md2'', ''core:A.md->core:B.md3'']"
proof -
  have b: "el_id ` set [liveNode fileB] = el_id ` set [liveNode fileB, liveNode fileB]"
    by simp
  note t = createEdges_deterministic_ids [of "[liveNode fileB]" "[liveNode fileB, liveNode fileB]"
        vault False fileA "''core:A.md''"]
  have same: "createEdges vault False fileA ''core:A.md'' [liveNode fileB] =
     createEdges vault False fileA ''core:A.md'' [liveNode fileB, liveNode fileB]"
    using t b by blast
  have closed: "createEdges vault False fileA ''core:A.md'' [liveNode fileB] =
     concat (pairwiseEdges vault fileA ''core:A.md'' [liveNode fileB])"
    using t by blast
  have "map (\<lambda>e. d_id (e_data e)) (createEdges vault False fileA ''core:A.md'' [liveNode fileB]) =
     [''core:A.md->core:B.md1'', ''core:A.md->core:B.md2'', ''core:A.md->core:B.md3'']"
    unfolding closed by (simp add: pairwiseEdges_def vault_simps)
  with same show ?thesis by simp
qed

text \<open>
  C7. \<open>connectNodes\<close> returns the edges of every new node towards the nodes of
  \<open>allNodes\<close>, followed by the edges of every node of \<open>allNodes\<close> that is not new
  towards the new nodes. The sources of the second pass are the nodes of
  \<open>allNodes\<close> whose id is not the id of a new node, so that a new node is a source
  in the first pass only and an edge between two new nodes is produced once.
\<close>

theorem connectNodes_both_directions:
  "connectNodes E m allNodes newNodes =
     concat (map (nodeEdges E m allNodes) newNodes) @
     concat (map (nodeEdges E m newNodes) (difference allNodes newNodes)) \<and>
   el_id ` set (difference allNodes newNodes) = el_id ` set allNodes - el_id ` set newNodes"
  by (auto simp: connectNodes_def Let_def connectLoop_closed difference_def)

theorem connectNodes_both_directions_witness:
  "map (\<lambda>e. d_id (e_data e))
     (connectNodes vault False [liveNode fileA, liveNode fileB] [liveNode fileA, liveNode fileB]) =
     [''core:A.md->core:B.md1'', ''core:A.md->core:B.md2'', ''core:A.md->core:B.md3''] \<and>
   map (\<lambda>e. d_id (e_data e))
     (connectNodes vault False [liveNode fileA, liveNode fileB] [liveNode fileB]) =
     [''core:A.md->core:B.md1'', ''core:A.md->core:B.md2'', ''core:A.md->core:B.md3'']"
  using connectNodes_both_directions [of vault False "[liveNode fileA, liveNode fileB]" "[liveNode fileA, liveNode fileB]"]
    connectNodes_both_directions [of vault False "[liveNode fileA, liveNode fileB]" "[liveNode fileB]"]
  by (simp add: nodeEdges_def difference_def fromNode_def getFile_def createEdges_def collectEdges_def
      addLink_def by_id_def vault_simps)

section \<open>Dangling links\<close>

text \<open>
  C6. When the link path of a reference resolves to no document, \<open>getOtherId\<close>
  yields the placeholder made of the link path and the store tag. On a host that
  finds every document by its name, the placeholder differs from the id
  \<open>getOtherId\<close> gives any reference that resolves to a document. The id depends
  on the reference through its link text only, so that resolving the same text
  from the same source yields the same id.
\<close>

theorem getOtherId_dangling:
  assumes "getFirstLinkpathDest E (getLinkpath E (ref_link link)) sourcePath = None"
    and "findsByName E sourcePath"
  shows "getOtherId E link sourcePath =
           \<lparr> v_id = getLinkpath E (ref_link link), v_storeId = storeId \<rparr> \<and>
         (\<forall>link' s file. getFirstLinkpathDest E (getLinkpath E (ref_link link')) s = Some file \<longrightarrow>
            getOtherId E link' s = \<lparr> v_id = f_name file, v_storeId = storeId \<rparr> \<and>
            getOtherId E link' s \<noteq> getOtherId E link sourcePath) \<and>
         (\<forall>link'. ref_link link' = ref_link link \<longrightarrow>
            getOtherId E link' sourcePath = getOtherId E link sourcePath)"
proof -
  have placeholder: "getOtherId E link sourcePath =
      \<lparr> v_id = getLinkpath E (ref_link link), v_storeId = storeId \<rparr>"
    using assms(1) by (simp add: getOtherId_def)
  have real: "getOtherId E link' s = \<lparr> v_id = f_name doc, v_storeId = storeId \<rparr> \<and>
      getOtherId E link' s \<noteq> getOtherId E link sourcePath"
    if found: "getFirstLinkpathDest E (getLinkpath E (ref_link link')) s = Some doc"
    for link' s doc
  proof -
    have "getFirstLinkpathDest E (f_name doc) sourcePath \<noteq> None"
      using assms(2) found unfolding findsByName_def by blast
    with assms(1) have "f_name doc \<noteq> getLinkpath E (ref_link link)"
      by auto
    then show ?thesis
      using found by (simp add: getOtherId_def placeholder [unfolded getOtherId_def])
  qed
  have stable: "getOtherId E link' sourcePath = getOtherId E link sourcePath"
    if "ref_link link' = ref_link link" for link'
    using that by (simp add: getOtherId_def)
  show ?thesis
    using placeholder real stable by blast
qed

theorem getOtherId_dangling_witness:
  "getFirstLinkpathDest vault (getLinkpath vault ''C'') ''A.md'' = None \<and>
   findsByName vault ''A.md'' \<and>
   getOtherId vault (FrontmatterRef \<lparr> fl_link = ''C'', fl_key = ''up'' \<rparr>) ''A.md'' =
     \<lparr> v_id = ''C'', v_storeId = ''core'' \<rparr> \<and>
   getOtherId vault (FrontmatterRef \<lparr> fl_link = ''B'', fl_key = ''up'' \<rparr>) ''A.md'' =
     \<lparr> v_id = ''B.md'', v_storeId = ''core'' \<rparr> \<and>
   getOtherId vault (FrontmatterRef \<lparr> fl_link = ''B'', fl_key = ''up'' \<rparr>) ''A.md'' \<noteq>
     getOtherId vault (FrontmatterRef \<lparr> fl_link = ''C'', fl_key = ''up'' \<rparr>) ''A.md''"
proof -
  let ?c = "FrontmatterRef \<lparr> fl_link = ''C'', fl_key = ''up'' \<rparr>"
  let ?b = "FrontmatterRef \<lparr> fl_link = ''B'', fl_key = ''up'' \<rparr>"
  have pc: "getLinkpath vault (ref_link ?c) = ''C''" and pc': "getLinkpath vault ''C'' = ''C''"
    by (simp_all add: vault_def)
  have a: "getFirstLinkpathDest vault (getLinkpath vault (ref_link ?c)) ''A.md'' = None"
    by (simp add: vault_def)
  have b: "findsByName vault ''A.md''"
    unfolding findsByName_def
    by (simp add: vault_def fileA_def fileB_def)
  have c: "getFirstLinkpathDest vault (getLinkpath vault (ref_link ?b)) ''A.md'' = Some fileB"
    by (simp add: vault_def)
  note t = getOtherId_dangling [OF a b]
  have p: "getOtherId vault ?c ''A.md'' = \<lparr> v_id = ''C'', v_storeId = ''core'' \<rparr>"
    using t pc by (simp add: storeId_def)
  have q: "getOtherId vault ?b ''A.md'' = \<lparr> v_id = f_name fileB, v_storeId = storeId \<rparr> \<and>
      getOtherId vault ?b ''A.md'' \<noteq> getOtherId vault ?c ''A.md''"
    using t c by blast
  have r: "getFirstLinkpathDest vault (getLinkpath vault ''C'') ''A.md'' = None"
    using a pc pc' by simp
  from q have q1: "getOtherId vault ?b ''A.md'' = \<lparr> v_id = ''B.md'', v_storeId = ''core'' \<rparr>"
    by (simp add: fileB_def storeId_def)
  show ?thesis
    using r b p q q1 by blast
qed

section \<open>Neighbourhoods\<close>

text \<open>
  A requested id whose document is not found, or has no cached metadata, changes
  neither the nodes returned nor whether the call fails: the result is that of
  the request without it.
\<close>

lemma neighbourhoodLoop_skips_missing:
  "neighbourhoodLoop E (filter (\<lambda>i. \<not> missingDocument E i) nodeIds) nodes =
   neighbourhoodLoop E nodeIds nodes"
proof (induction nodeIds arbitrary: nodes)
  case Nil
  then show ?case by simp
next
  case (Cons nodeId rest)
  show ?case
  proof (cases "missingDocument E nodeId")
    case True
    then have "neighbourhoodLoop E (nodeId # rest) nodes = neighbourhoodLoop E rest nodes"
      by (auto simp: missingDocument_def split: option.splits)
    then show ?thesis using True Cons by simp
  next
    case False
    then show ?thesis
      using Cons by (auto simp: Let_def split: option.splits sum.splits)
  qed
qed

lemma getNeighbourhood_skips_missing:
  "getNeighbourhood E (filter (\<lambda>i. \<not> missingDocument E i) nodeIds) = getNeighbourhood E nodeIds"
  by (simp add: getNeighbourhood_def neighbourhoodLoop_skips_missing)

text \<open>
  C8, where the source departs from it. The requested ids \<open>A\<close> and \<open>B\<close>, names
  without the extension as the view makes them from its initial nodes, find the
  notes \<open>A.md\<close> and \<open>B.md\<close>. Line 241 files the node of a requested note under
  the requested id, \<open>core:A\<close>, whereas lines 209 and 246 file the node of a linked
  note under the id made from the name of its file, \<open>core:B.md\<close>. The note
  \<open>B.md\<close>, requested and linked from \<open>A.md\<close>, and the note \<open>A.md\<close>, requested and
  a back-link of \<open>B.md\<close>, are thus each filed under two keys, and the list
  returned holds two descriptors with the id \<open>core:A.md\<close> and two with the id
  \<open>core:B.md\<close>.
\<close>

theorem getNeighbourhood_repeats_descriptor:
  "getNeighbourhood vault [\<lparr> v_id = ''A'', v_storeId = ''core'' \<rparr>, \<lparr> v_id = ''B'', v_storeId = ''core'' \<rparr>] =
     Inr [vaultNode fileA, vaultNode fileB, vaultNode fileB, vaultNode fileA] \<and>
   map (\<lambda>n. n_id (nd_data n)) [vaultNode fileA, vaultNode fileB, vaultNode fileB, vaultNode fileA] =
     [''core:A.md'', ''core:B.md'', ''core:B.md'', ''core:A.md'']"
proof -
  have run: "neighbourhoodLoop vault
      [\<lparr> v_id = ''A'', v_storeId = ''core'' \<rparr>, \<lparr> v_id = ''B'', v_storeId = ''core'' \<rparr>] [] =
      Inr [(''core:A'', vaultNode fileA), (''core:B.md'', vaultNode fileB),
           (''core:B'', vaultNode fileB), (''core:A.md'', vaultNode fileA)]"
    by (simp add: getFile_def fillWithBacklinks_def addPromise_def getNodeFromLink_def hasKey_def
        jsIn_def objectPrototypeKeys_def vault_simps)
  have ids: "map (\<lambda>n. n_id (nd_data n)) [vaultNode fileA, vaultNode fileB, vaultNode fileB, vaultNode fileA] =
     [''core:A.md'', ''core:B.md'', ''core:B.md'', ''core:A.md'']"
    by (simp add: vaultNode_def fileA_def fileB_def)
  show ?thesis
    using run ids by (simp add: getNeighbourhood_def)
qed

section \<open>The structural-change notification\<close>

text \<open>
  Every pass of the notification maps the graph element by element, and no pass
  changes an edge, a position, or the data of a node other than the degree and
  the length of the name.
\<close>

lemma sameElement_refl: "sameElement e e"
  by (simp add: sameElement_def)

lemma withoutDerived_isNode:
  "withoutDerived (el_def e') = withoutDerived (el_def e) \<Longrightarrow> isNode e' = isNode e"
  by (auto simp: withoutDerived_def isNode_def split: elementDefinition.splits)

lemma sameElement_trans: "sameElement a b \<Longrightarrow> sameElement b c \<Longrightarrow> sameElement a c"
  by (auto simp: sameElement_def)

lemma sameElement_id: "sameElement e e' \<Longrightarrow> el_id e' = el_id e"
proof -
  assume a: "sameElement e e'"
  have n: "n_id (nd_data n') = n_id (nd_data n)"
    if "n'\<lparr> nd_data := (nd_data n')\<lparr> n_degree := None, n_nameLength := None \<rparr> \<rparr> =
        n\<lparr> nd_data := (nd_data n)\<lparr> n_degree := None, n_nameLength := None \<rparr> \<rparr>" for n n' :: nodeDefinition
  proof -
    from that have "nd_data (n'\<lparr> nd_data := (nd_data n')\<lparr> n_degree := None, n_nameLength := None \<rparr> \<rparr>) =
        nd_data (n\<lparr> nd_data := (nd_data n)\<lparr> n_degree := None, n_nameLength := None \<rparr> \<rparr>)" by simp
    then have "n_id ((nd_data n')\<lparr> n_degree := None, n_nameLength := None \<rparr>) =
        n_id ((nd_data n)\<lparr> n_degree := None, n_nameLength := None \<rparr>)" by simp
    then show ?thesis by simp
  qed
  from a have w: "withoutDerived (el_def e') = withoutDerived (el_def e)"
    by (simp add: sameElement_def)
  show ?thesis
  proof (cases "el_def e")
    case (NodeDef m)
    with w obtain m' where "el_def e' = NodeDef m'"
      by (cases "el_def e'") (simp_all add: withoutDerived_def)
    with w NodeDef n [of m' m] show ?thesis
      by (simp add: withoutDerived_def el_id_def)
  next
    case (EdgeDef d)
    with w have "el_def e' = EdgeDef d"
      by (cases "el_def e'") (simp_all add: withoutDerived_def)
    with EdgeDef show ?thesis by (simp add: el_id_def)
  qed
qed

lemma sameElement_isNode: "sameElement e e' \<Longrightarrow> isNode e' = isNode e"
  by (rule withoutDerived_isNode) (simp add: sameElement_def)

lemma sameElement_map:
  assumes "\<And>e. sameElement e (f e)"
  shows "list_all2 sameElement g (map f g)"
  by (simp add: list_all2_map2 list_all2_same assms)

lemma sameElements_trans:
  "list_all2 sameElement a b \<Longrightarrow> list_all2 sameElement b c \<Longrightarrow> list_all2 sameElement a c"
  by (rule list_all2_trans [of sameElement sameElement sameElement]) (blast intro: sameElement_trans)+

lemma addClassTo_keeps [simp]:
  "el_def (addClassTo c e) = el_def e" "el_position (addClassTo c e) = el_position e"
  by (simp_all add: addClassTo_def)

lemma removeClassFrom_keeps [simp]:
  "el_def (removeClassFrom c e) = el_def e" "el_position (removeClassFrom c e) = el_position e"
  by (simp_all add: removeClassFrom_def)

lemma addClasses_keeps [simp]:
  "el_def (addClasses cs e) = el_def e" "el_position (addClasses cs e) = el_position e"
  by (induction cs arbitrary: e rule: rev_induct) (simp_all add: addClasses_def)

lemma sameElement_recomputeNode: "sameElement e (if isNode e then recomputeNode g e else e)"
proof (cases "el_def e")
  case (NodeDef n)
  then show ?thesis
    by (simp add: sameElement_def recomputeNode_def withoutDerived_def isNode_def)
next
  case (EdgeDef d)
  then show ?thesis
    by (simp add: sameElement_def isNode_def)
qed

lemma isNode_classes [simp]:
  "isNode (addClassTo c e) = isNode e" "isNode (removeClassFrom c e) = isNode e"
  by (simp_all add: isNode_def)

lemma searchFilter_same: "list_all2 sameElement g (searchFilter H query g)"
proof -
  have a: "sameElement e (if isNode e then removeClassFrom c e else e)" for e c
    by (simp add: sameElement_def)
  have b: "sameElement e (if isNode e \<and> P e then addClassTo c e else e)" for e c P
    by (simp add: sameElement_def)
  show ?thesis
    unfolding searchFilter_def Let_def
    by (rule sameElements_trans [OF sameElement_map sameElement_map]) (rule a, rule b)
qed

lemma assignGroup_same: "list_all2 sameElement g (assignGroup H prefix g ig)"
proof -
  have a: "sameElement e (if isNode e then removeClassFrom c e else e)" for e c
    by (simp add: sameElement_def)
  have b: "sameElement e (if isNode e \<and> P e then addClassTo c e else e)" for e c P
    by (simp add: sameElement_def)
  obtain index groupFilter where ig: "ig = (index, groupFilter)" by (cases ig)
  show ?thesis
    unfolding assignGroup_def Let_def ig prod.case
    by (rule sameElements_trans [OF sameElement_map sameElement_map]) (rule a, rule b)
qed

lemma assignGroups_same: "list_all2 sameElement g (assignGroups H groups prefix g)"
proof -
  have "list_all2 sameElement g (foldl (assignGroup H prefix) g igs)" for igs
  proof (induction igs rule: rev_induct)
    case Nil
    show ?case by (simp add: list_all2_same sameElement_refl)
  next
    case (snoc ig igs)
    show ?case
      using sameElements_trans [OF snoc assignGroup_same] by simp
  qed
  then show ?thesis by (simp add: assignGroups_def)
qed

lemma assignStyleGroups_same: "list_all2 sameElement g (assignStyleGroups H v g)"
proof (cases "plugin_globalStyleGroups v")
  case None
  then show ?thesis by (simp add: assignStyleGroups_def assignGroups_same)
next
  case (Some groups)
  then show ?thesis
    using sameElements_trans [OF assignGroups_same assignGroups_same]
    by (simp add: assignStyleGroups_def)
qed

lemma recomputeGraph_same: "list_all2 sameElement g (recomputeGraph H v g)"
  unfolding recomputeGraph_def
  by (rule sameElements_trans [OF sameElements_trans [OF sameElement_map searchFilter_same]
        assignStyleGroups_same]) (rule sameElement_recomputeNode)

lemma sameElements_ids: "list_all2 sameElement g g' \<Longrightarrow> map el_id g' = map el_id g"
  by (induction rule: list_all2_induct) (simp_all add: sameElement_id)

lemma sameElements_filter:
  assumes "list_all2 sameElement g g'"
  shows "filter (\<lambda>e. \<not> isNode e \<and> P e) g' = filter (\<lambda>e. \<not> isNode e \<and> P e) g"
  using assms
proof (induction rule: list_all2_induct)
  case Nil
  show ?case by simp
next
  case (Cons e g e' g')
  from Cons(1) have "isNode e' = isNode e" "\<not> isNode e \<Longrightarrow> e' = e"
    by (simp_all add: sameElement_isNode) (simp add: sameElement_def)
  with Cons(3) show ?case by auto
qed

lemma sameElements_by_ids:
  assumes "list_all2 sameElement g g'"
  shows "list_all2 sameElement (filter (\<lambda>e. el_id e \<in> S) g) (filter (\<lambda>e. el_id e \<in> S) g')"
  using assms
  by (induction rule: list_all2_induct) (simp_all add: sameElement_id)

lemma sameElements_edge_mem:
  assumes "list_all2 sameElement g g'" and "\<not> isNode e"
  shows "e \<in> set g' \<longleftrightarrow> e \<in> set g"
proof -
  from sameElements_filter [OF assms(1), of "\<lambda>e. True"]
  have "set (filter (\<lambda>e. \<not> isNode e) g') = set (filter (\<lambda>e. \<not> isNode e) g)" by simp
  with assms(2) show ?thesis by auto
qed

lemma recomputeGraph_settings [simp]:
  "recomputeGraph H (v\<lparr> viz := x \<rparr>) g = recomputeGraph H v g"
  "recomputeGraph H (v\<lparr> events := y \<rparr>) g = recomputeGraph H v g"
  by (simp_all add: recomputeGraph_def assignStyleGroups_def)

section \<open>Merging into the live graph\<close>

lemma by_id_empty: "by_id g i = [] \<longleftrightarrow> i \<notin> el_id ` set g"
  by (auto simp: by_id_def filter_empty_conv)

lemma el_id_newElement [simp]: "el_id (newElement d) = def_id d"
  by (simp add: el_id_def newElement_def)

lemma mergeElements_result:
  "mergeElements ds g m a = (g', m', a') \<Longrightarrow>
   \<exists>new. g' = g @ new \<and> m' = m @ map def_id ds \<and> a' = a @ map el_id new \<and>
         (\<forall>e \<in> set new. el_id e \<notin> el_id ` set g) \<and>
         (\<forall>d \<in> set ds. def_id d \<in> el_id ` set g') \<and>
         el_id ` set new \<subseteq> def_id ` set ds"
proof (induction ds arbitrary: g m a)
  case Nil
  then show ?case by simp
next
  case (Cons d ds)
  show ?case
  proof (cases "by_id g (def_id d) = []")
    case False
    with Cons.prems have "mergeElements ds g (m @ [def_id d]) a = (g', m', a')"
      by simp
    from Cons.IH [OF this] obtain new where
      n: "g' = g @ new" "m' = (m @ [def_id d]) @ map def_id ds" "a' = a @ map el_id new"
         "\<forall>e \<in> set new. el_id e \<notin> el_id ` set g" "\<forall>d \<in> set ds. def_id d \<in> el_id ` set g'"
         "el_id ` set new \<subseteq> def_id ` set ds"
      by blast
    have "def_id d \<in> el_id ` set g'"
      using False n(1) by (auto simp: by_id_empty)
    with n show ?thesis by auto
  next
    case True
    with Cons.prems have "mergeElements ds (g @ [newElement d]) (m @ [def_id d]) (a @ [def_id d]) = (g', m', a')"
      by simp
    from Cons.IH [OF this] obtain new where
      n: "g' = (g @ [newElement d]) @ new" "m' = (m @ [def_id d]) @ map def_id ds"
         "a' = (a @ [def_id d]) @ map el_id new"
         "\<forall>e \<in> set new. el_id e \<notin> el_id ` set (g @ [newElement d])"
         "\<forall>d \<in> set ds. def_id d \<in> el_id ` set g'"
         "el_id ` set new \<subseteq> def_id ` set ds"
      by blast
    have fresh: "def_id d \<notin> el_id ` set g"
      using True by (simp add: by_id_empty)
    show ?thesis
    proof (intro exI conjI)
      show "g' = g @ (newElement d # new)" using n(1) by simp
      show "m' = m @ map def_id (d # ds)" using n(2) by simp
      show "a' = a @ map el_id (newElement d # new)" using n(3) by simp
      show "\<forall>e \<in> set (newElement d # new). el_id e \<notin> el_id ` set g"
        using n(4) fresh by auto
      show "\<forall>d \<in> set (d # ds). def_id d \<in> el_id ` set g'"
        using n(1) n(5) by auto
      show "el_id ` set (newElement d # new) \<subseteq> def_id ` set (d # ds)"
        using n(6) by auto
    qed
  qed
qed

lemma mergeElements_present:
  "\<forall>d \<in> set ds. def_id d \<in> el_id ` set g \<Longrightarrow>
   mergeElements ds g m a = (g, m @ map def_id ds, a)"
  by (induction ds arbitrary: m) (auto simp: by_id_empty)

lemma el_id_position [simp]: "el_id (e\<lparr> el_position := p \<rparr>) = el_id e"
  by (simp add: el_id_def)

lemma positionAdded_append:
  "\<forall>e \<in> set g. el_id e \<notin> set ids \<Longrightarrow>
   \<exists>new'. positionAdded P parents ids (g @ new) = g @ new' \<and> map el_id new' = map el_id new"
proof (induction ids arbitrary: new)
  case Nil
  then show ?case by (simp add: positionAdded_def)
next
  case (Cons i ids)
  let ?f = "\<lambda>e. if el_id e = i \<and> isNode e then e\<lparr> el_position := P (g @ new) parents e \<rparr> else e"
  have keep: "map ?f g = g"
    using Cons.prems by (intro map_idI) auto
  have ids: "map el_id (map ?f new) = map el_id new"
    by (induction new) auto
  from Cons.prems have "\<forall>e \<in> set g. el_id e \<notin> set ids" by auto
  from Cons.IH [OF this, of "map ?f new"] obtain new' where
    "positionAdded P parents ids (g @ map ?f new) = g @ new'" "map el_id new' = map el_id (map ?f new)"
    by blast
  then show ?case
    using keep ids by (auto simp: positionAdded_def)
qed

lemma filter_append_fresh:
  "(\<And>e. e \<in> set g \<Longrightarrow> \<not> Q e) \<Longrightarrow> (\<And>e. e \<in> set new \<Longrightarrow> Q e) \<Longrightarrow> filter Q (g @ new) = new"
  by (simp add: filter_empty_conv filter_id_conv)

text \<open>The merge proper, on the graph.\<close>

lemma mergeToGraphUtil_result:
  assumes "mergeToGraphUtil P g elements batch trig parents = (res, g1, notify)"
  shows "\<exists>new. g1 = g @ new \<and> notify = trig \<and>
           (\<forall>e \<in> set new. el_id e \<notin> el_id ` set g) \<and>
           (\<forall>d \<in> set elements. def_id d \<in> el_id ` set g1) \<and>
           el_id ` set new \<subseteq> def_id ` set elements \<and>
           merged res = filter (\<lambda>e. el_id e \<in> def_id ` set elements) g1 \<and>
           added res = new"
proof -
  obtain g0 mergedIds addedIds where me: "mergeElements elements g [] [] = (g0, mergedIds, addedIds)"
    by (cases "mergeElements elements g [] []") auto
  from mergeElements_result [OF me] obtain new0 where
    n: "g0 = g @ new0" "mergedIds = map def_id elements" "addedIds = map el_id new0"
       "\<forall>e \<in> set new0. el_id e \<notin> el_id ` set g" "\<forall>d \<in> set elements. def_id d \<in> el_id ` set g0"
       and sub0: "el_id ` set new0 \<subseteq> def_id ` set elements"
    by auto
  have g1_def: "g1 = (case parents of None \<Rightarrow> g0 | Some ps \<Rightarrow> positionAdded P ps addedIds g0)"
    using assms me by (simp add: mergeToGraphUtil_def Let_def)
  have "\<exists>new. g1 = g @ new \<and> map el_id new = map el_id new0"
  proof (cases parents)
    case None
    then show ?thesis using g1_def n(1) by simp
  next
    case (Some ps)
    have "\<forall>e \<in> set g. el_id e \<notin> set addedIds"
    proof
      fix e assume "e \<in> set g"
      then have "el_id e \<in> el_id ` set g" by (rule imageI)
      moreover have "el_id ` set new0 \<inter> el_id ` set g = {}" using n(4) by blast
      ultimately show "el_id e \<notin> set addedIds" unfolding n(3) by auto
    qed
    from positionAdded_append [OF this, of P ps new0] obtain new' where
      "positionAdded P ps addedIds (g @ new0) = g @ new'" "map el_id new' = map el_id new0"
      by blast
    then show ?thesis
      using g1_def n(1) Some by simp
  qed
  then obtain new where g1: "g1 = g @ new" and ids: "map el_id new = map el_id new0"
    by blast
  have set_ids: "el_id ` set new = el_id ` set new0"
    using ids by (metis set_map)
  have res: "res = \<lparr> merged = filter (\<lambda>e. el_id e \<in> set mergedIds) g1,
                     added = filter (\<lambda>e. el_id e \<in> set addedIds) g1 \<rparr>" and nt: "notify = trig"
    using assms me by (auto simp: mergeToGraphUtil_def Let_def split: option.splits)
  have added_ids: "set addedIds = el_id ` set new"
    using n(3) set_ids by simp
  have fresh0: "el_id ` set new0 \<inter> el_id ` set g = {}"
    using n(4) by blast
  then have disjoint: "el_id ` set new \<inter> el_id ` set g = {}"
    using set_ids by simp
  have fresh: "\<forall>e \<in> set new. el_id e \<notin> el_id ` set g"
    using disjoint by blast
  have old: "el_id e \<notin> set addedIds" if "e \<in> set g" for e
  proof
    assume "el_id e \<in> set addedIds"
    then have "el_id e \<in> el_id ` set new" using added_ids by simp
    moreover have "el_id e \<in> el_id ` set g" using that by (rule imageI)
    ultimately show False using disjoint by blast
  qed
  have young: "el_id e \<in> set addedIds" if "e \<in> set new" for e
    unfolding added_ids using that by (rule imageI)
  have added: "filter (\<lambda>e. el_id e \<in> set addedIds) g1 = new"
    unfolding g1 by (rule filter_append_fresh) (simp_all add: old young)
  have present: "\<forall>d \<in> set elements. def_id d \<in> el_id ` set g1"
  proof
    fix d assume "d \<in> set elements"
    with n(5) have "def_id d \<in> el_id ` set g0" by blast
    then show "def_id d \<in> el_id ` set g1"
      unfolding n(1) g1 using set_ids by (simp add: image_Un)
  qed
  have sub: "el_id ` set new \<subseteq> def_id ` set elements"
    using sub0 set_ids by simp
  have m: "merged res = filter (\<lambda>e. el_id e \<in> def_id ` set elements) g1"
    unfolding res n(2) by simp
  have a: "added res = new"
    unfolding res using added by simp
  show ?thesis
    using g1 nt fresh present sub m a by blast
qed

lemma mergeToGraphUtil_present:
  assumes "\<forall>d \<in> set elements. def_id d \<in> el_id ` set g"
  shows "mergeToGraphUtil P g elements batch trig parents =
           (\<lparr> merged = filter (\<lambda>e. el_id e \<in> def_id ` set elements) g, added = [] \<rparr>, g, trig)"
  using mergeElements_present [OF assms, of "[]" "[]"]
  by (simp add: mergeToGraphUtil_def positionAdded_def split: option.splits)

text \<open>The collections of the result, read from the graph the merge leaves.\<close>

lemma filter_by_ids:
  assumes "map el_id g1 = map el_id g0"
  shows "filter (\<lambda>e. el_id e \<in> set (map el_id (filter (\<lambda>e. el_id e \<in> D) g0))) g1 =
         filter (\<lambda>e. el_id e \<in> D) g1"
proof (rule filter_cong [OF refl])
  fix e assume "e \<in> set g1"
  then have "el_id e \<in> set (map el_id g1)" by simp
  with assms have "el_id e \<in> el_id ` set g0" by simp
  then show "(el_id e \<in> set (map el_id (filter (\<lambda>e. el_id e \<in> D) g0))) = (el_id e \<in> D)"
    by auto
qed

lemma filter_ids_suffix:
  assumes "map el_id g1 = map el_id (g @ new)" and "\<forall>e \<in> set new. el_id e \<notin> el_id ` set g"
  shows "filter (\<lambda>e. el_id e \<in> set (map el_id new)) g1 = drop (length g) g1"
proof -
  let ?a = "take (length g) g1" and ?b = "drop (length g) g1"
  have "map el_id ?a = take (length g) (map el_id g1)" by (simp add: take_map)
  with assms(1) have a: "map el_id ?a = map el_id g" by simp
  have "map el_id ?b = drop (length g) (map el_id g1)" by (simp add: drop_map)
  with assms(1) have b: "map el_id ?b = map el_id new" by simp
  have fa: "filter (\<lambda>e. el_id e \<in> set (map el_id new)) ?a = []"
  proof -
    have "el_id e \<notin> set (map el_id new)" if "e \<in> set ?a" for e
    proof -
      from that have "el_id e \<in> set (map el_id ?a)" by (simp only: set_map) (rule imageI)
      with a have "el_id e \<in> el_id ` set g" by simp
      with assms(2) show ?thesis by auto
    qed
    then show ?thesis by (simp add: filter_empty_conv)
  qed
  have fb: "filter (\<lambda>e. el_id e \<in> set (map el_id new)) ?b = ?b"
  proof -
    have "el_id e \<in> set (map el_id new)" if "e \<in> set ?b" for e
    proof -
      from that have "el_id e \<in> set (map el_id ?b)" by (simp only: set_map) (rule imageI)
      with b show ?thesis by simp
    qed
    then show ?thesis by (simp add: filter_id_conv)
  qed
  have "filter (\<lambda>e. el_id e \<in> set (map el_id new)) (?a @ ?b) = ?b"
    unfolding filter_append fa fb by simp
  then show ?thesis by simp
qed

lemma onGraphChanged_result:
  "viz v = Some g \<Longrightarrow>
   onGraphChanged H batch debounceLayout v =
     (Inr (), v\<lparr> viz := Some (recomputeGraph H v g),
                  events := events v @ [ElementsChange] @
                            (if debounceLayout then [RestartLayoutDebounced] else []) \<rparr>)"
  by (simp add: onGraphChanged_def)

lemma mergeToGraph_result:
  assumes "viz v = Some g" and "mergeToGraph H elements batch trig parents v = (r, v1)"
  shows "\<exists>res new g1. r = Inr res \<and> viz v1 = Some g1 \<and>
           g1 = (if trig then recomputeGraph H v (g @ new) else g @ new) \<and>
           added res = drop (length g) g1 \<and>
           (\<forall>e \<in> set new. el_id e \<notin> el_id ` set g) \<and>
           (\<forall>d \<in> set elements. def_id d \<in> el_id ` set (g @ new)) \<and>
           el_id ` set new \<subseteq> def_id ` set elements \<and>
           merged res = filter (\<lambda>e. el_id e \<in> def_id ` set elements) g1 \<and>
           vizReady v1 = vizReady v \<and> settings_mergeEdges v1 = settings_mergeEdges v"
proof -
  obtain res0 g0 notify where u: "mergeToGraphUtil (placeNode H) g elements batch trig parents = (res0, g0, notify)"
    by (cases "mergeToGraphUtil (placeNode H) g elements batch trig parents") auto
  from mergeToGraphUtil_result [OF u] obtain new where
    n: "g0 = g @ new" "notify = trig" "\<forall>e \<in> set new. el_id e \<notin> el_id ` set g"
       "\<forall>d \<in> set elements. def_id d \<in> el_id ` set g0"
       "el_id ` set new \<subseteq> def_id ` set elements"
       "merged res0 = filter (\<lambda>e. el_id e \<in> def_id ` set elements) g0" "added res0 = new"
    by blast
  define g1 where "g1 = (if trig then recomputeGraph H v g0 else g0)"
  define v2 where "v2 = (if trig then v\<lparr> viz := Some g1, events := events v @ [ElementsChange] \<rparr>
                         else v\<lparr> viz := Some g1 \<rparr>)"
  have ids: "map el_id g1 = map el_id g0"
    unfolding g1_def using sameElements_ids [OF recomputeGraph_same, of H v g0] by simp
  have step: "(if notify then onGraphChanged H batch False (v\<lparr> viz := Some g0 \<rparr>)
               else (Inr (), v\<lparr> viz := Some g0 \<rparr>)) = (Inr (), v2)"
    unfolding n(2) v2_def g1_def by (simp add: onGraphChanged_def)
  have vz: "viz v2 = Some g1" by (simp add: v2_def)
  have m: "readCollection v2 (merged res0) = filter (\<lambda>e. el_id e \<in> def_id ` set elements) g1"
    unfolding readCollection_def vz n(6) option.case by (rule filter_by_ids [OF ids])
  have a: "readCollection v2 (added res0) = drop (length g) g1"
    unfolding readCollection_def vz n(7) option.case
    by (rule filter_ids_suffix [OF ids [unfolded n(1)] n(3)])
  define res where "res = \<lparr> merged = filter (\<lambda>e. el_id e \<in> def_id ` set elements) g1,
                             added = drop (length g) g1 \<rparr>"
  have run: "mergeToGraph H elements batch trig parents v =
      (if length (filter isNode (added res)) > 0
       then (Inr res, trigger (NewNodesAdded (map el_id (filter isNode (added res)))) v2)
       else (Inr res, v2))"
    unfolding mergeToGraph_def assms(1) option.case u prod.case step sum.case Let_def m a res_def
    by simp
  from run assms(2) have r: "r = Inr res" and v1: "viz v1 = Some g1"
    and keep: "vizReady v1 = vizReady v" "settings_mergeEdges v1 = settings_mergeEdges v"
    by (auto simp: trigger_def v2_def split: if_splits)
  have g1: "g1 = (if trig then recomputeGraph H v (g @ new) else g @ new)"
    by (simp add: g1_def n(1))
  have p: "\<forall>d \<in> set elements. def_id d \<in> el_id ` set (g @ new)"
    using n(4) unfolding n(1) .
  have ra: "added res = drop (length g) g1" and rm: "merged res = filter (\<lambda>e. el_id e \<in> def_id ` set elements) g1"
    by (simp_all add: res_def)
  show ?thesis
    using r v1 g1 ra n(3) p n(5) rm keep by blast
qed

text \<open>
  C2, as the source has it. A merge keeps the elements the live graph had in
  front of the elements it inserts; it reports the inserted ones as \<open>added\<close>,
  none of which bears an id the graph had, and reports as \<open>merged\<close> the elements
  of the graph that bear an id of the batch. Merging the same batch again,
  whatever the other arguments, inserts nothing and reports nothing as added,
  and reports the same elements as merged. When the second merge is not asked to
  notify, it leaves the view as the first merge left it. When it is, the
  structural-change notification runs once more: it triggers its event and
  computes anew what it derives for the nodes, their degree, the length of
  their name and their classes, while every element keeps its place in the
  graph, its position and the rest of its data, and every edge is left as it
  was. The first merge treats the elements the graph had in the same way.
\<close>

theorem mergeToGraph_idempotent:
  assumes "viz v = Some g" and "mergeToGraph H elements batch trig parents v = (r1, v1)"
  shows "\<exists>res1 g1. r1 = Inr res1 \<and> viz v1 = Some g1 \<and>
           list_all2 sameElement g (take (length g) g1) \<and>
           (\<not> trig \<longrightarrow> take (length g) g1 = g) \<and>
           added res1 = drop (length g) g1 \<and>
           (\<forall>e \<in> set (added res1). el_id e \<notin> el_id ` set g) \<and>
           merged res1 = filter (\<lambda>e. el_id e \<in> def_id ` set elements) g1 \<and>
           mergeToGraph H elements batch' trig' parents' v1 =
             (if trig'
              then (Inr \<lparr> merged = filter (\<lambda>e. el_id e \<in> def_id ` set elements) (recomputeGraph H v1 g1),
                          added = [] \<rparr>,
                    v1\<lparr> viz := Some (recomputeGraph H v1 g1), events := events v1 @ [ElementsChange] \<rparr>)
              else (Inr \<lparr> merged = filter (\<lambda>e. el_id e \<in> def_id ` set elements) g1, added = [] \<rparr>, v1)) \<and>
           list_all2 sameElement g1 (recomputeGraph H v1 g1)"
proof -
  from mergeToGraph_result [OF assms] obtain res1 new g1 where
    n: "r1 = Inr res1" "viz v1 = Some g1"
       "g1 = (if trig then recomputeGraph H v (g @ new) else g @ new)"
       "added res1 = drop (length g) g1"
       "\<forall>e \<in> set new. el_id e \<notin> el_id ` set g"
       "\<forall>d \<in> set elements. def_id d \<in> el_id ` set (g @ new)"
       "merged res1 = filter (\<lambda>e. el_id e \<in> def_id ` set elements) g1"
    by blast
  have same: "list_all2 sameElement (g @ new) g1"
    unfolding n(3) by (simp add: recomputeGraph_same list_all2_same sameElement_refl)
  have ids: "map el_id g1 = map el_id (g @ new)"
    by (rule sameElements_ids [OF same])
  have front: "list_all2 sameElement g (take (length g) g1)"
    using list_all2_takeI [OF same, of "length g"] by simp
  have untouched: "take (length g) g1 = g" if "\<not> trig"
    using that by (simp add: n(3))
  have "map el_id (drop (length g) g1) = drop (length g) (map el_id g1)"
    by (simp add: drop_map)
  then have "map el_id (added res1) = map el_id new"
    unfolding n(4) ids by simp
  then have "el_id ` set (added res1) = el_id ` set new"
    by (metis set_map)
  with n(5) have fresh: "\<forall>e \<in> set (added res1). el_id e \<notin> el_id ` set g"
    by (metis (no_types, lifting) imageE imageI)
  have "el_id ` set g1 = el_id ` set (g @ new)"
    using ids by (metis set_map)
  with n(6) have present: "\<forall>d \<in> set elements. def_id d \<in> el_id ` set g1"
    by simp
  let ?g2 = "recomputeGraph H v1 g1"
  have ids2: "map el_id ?g2 = map el_id g1"
    by (rule sameElements_ids [OF recomputeGraph_same])
  have util: "mergeToGraphUtil (placeNode H) g1 elements batch' trig' parents' =
      (\<lparr> merged = filter (\<lambda>e. el_id e \<in> def_id ` set elements) g1, added = [] \<rparr>, g1, trig')"
    by (rule mergeToGraphUtil_present [OF present])
  have keep: "v1\<lparr> viz := Some g1 \<rparr> = v1"
    using n(2) by simp
  have again: "mergeToGraph H elements batch' trig' parents' v1 =
      (Inr \<lparr> merged = filter (\<lambda>e. el_id e \<in> def_id ` set elements) ?g2, added = [] \<rparr>,
       v1\<lparr> viz := Some ?g2, events := events v1 @ [ElementsChange] \<rparr>)" if "trig'"
  proof -
    have m: "readCollection (v1\<lparr> viz := Some ?g2, events := events v1 @ [ElementsChange] \<rparr>)
               (filter (\<lambda>e. el_id e \<in> def_id ` set elements) g1) =
             filter (\<lambda>e. el_id e \<in> def_id ` set elements) ?g2"
    proof -
      have "viz (v1\<lparr> viz := Some ?g2, events := events v1 @ [ElementsChange] \<rparr>) = Some ?g2"
        by simp
      then show ?thesis
        unfolding readCollection_def option.case by (simp only: option.case filter_by_ids [OF ids2])
    qed
    have a: "readCollection (v1\<lparr> viz := Some ?g2, events := events v1 @ [ElementsChange] \<rparr>) [] = []"
      by (simp add: readCollection_def)
    show ?thesis
      unfolding mergeToGraph_def n(2) option.case util prod.case keep
      using that by (simp add: onGraphChanged_result [OF n(2)] m a)
  qed
  have again': "mergeToGraph H elements batch' trig' parents' v1 =
      (Inr \<lparr> merged = filter (\<lambda>e. el_id e \<in> def_id ` set elements) g1, added = [] \<rparr>, v1)"
    if "\<not> trig'"
  proof -
    have m: "readCollection v1 (filter (\<lambda>e. el_id e \<in> def_id ` set elements) g1) =
             filter (\<lambda>e. el_id e \<in> def_id ` set elements) g1"
      unfolding readCollection_def n(2) option.case by (rule filter_by_ids [OF refl])
    have a: "readCollection v1 [] = []"
      by (simp add: readCollection_def n(2))
    show ?thesis
      unfolding mergeToGraph_def n(2) option.case util prod.case keep
      using that by (simp add: m a)
  qed
  have second: "mergeToGraph H elements batch' trig' parents' v1 =
             (if trig'
              then (Inr \<lparr> merged = filter (\<lambda>e. el_id e \<in> def_id ` set elements) ?g2, added = [] \<rparr>,
                    v1\<lparr> viz := Some ?g2, events := events v1 @ [ElementsChange] \<rparr>)
              else (Inr \<lparr> merged = filter (\<lambda>e. el_id e \<in> def_id ` set elements) g1, added = [] \<rparr>, v1))"
    using again again' by simp
  show ?thesis
    using n(1,2) front untouched n(4) fresh n(7) second recomputeGraph_same [of g1 H v1]
    by blast
qed

lemma string_of_nat_zero: "string_of_nat 0 = ''0''"
  by (simp add: string_of_nat.simps digit_char_def)

lemmas graph_simps =
  pinnedA_def terminalNode_def terminalEdge_def staleEdgeAB_def typedEdgeAB_def mergedEdgeAB_def
  newElement_def def_classes_def classList_def isNode_def edgeEnds_def hasClass_def by_id_def
  attachedTo_def

lemmas notify_simps =
  recomputeGraph_def recomputeNode_def searchFilter_def assignStyleGroups_def assignGroups_def
  assignGroup_def degree_def incomers_def outgoers_def edgeTypeName_def isLoop_def addClasses_def
  addClassTo_def removeClassFrom_def firstOccurrences_def CLASS_FILTERED_def nameFilter_def
  vaultHost_def viewOn_def notified_def string_of_nat_zero

lemmas merge_simps =
  mergeToGraph_def mergeToGraphUtil_def positionAdded_def readCollection_def onGraphChanged_def
  trigger_def originPlacement_def el_id_def liveNode_def vaultNode_def fileA_def fileB_def Let_def

theorem mergeToGraph_idempotent_witness:
  "mergeToGraph vaultHost [NodeDef (vaultNode fileA), NodeDef (vaultNode fileB), EdgeDef typedEdgeAB]
     True True (Some [pinnedA]) (viewOn [pinnedA]) =
     (Inr \<lparr> merged = [notified 1 4 [''pinned'', ''has-outgoing-next step''] pinnedA,
                       notified 1 4 [''has-incoming-next step'', ''local-0'']
                         ((liveNode fileB)\<lparr> el_position := (1, 1) \<rparr>),
                       newElement (EdgeDef typedEdgeAB)],
            added = [notified 1 4 [''has-incoming-next step'', ''local-0'']
                       ((liveNode fileB)\<lparr> el_position := (1, 1) \<rparr>),
                     newElement (EdgeDef typedEdgeAB)] \<rparr>,
      (viewOn [notified 1 4 [''pinned'', ''has-outgoing-next step''] pinnedA,
               notified 1 4 [''has-incoming-next step'', ''local-0'']
                 ((liveNode fileB)\<lparr> el_position := (1, 1) \<rparr>),
               newElement (EdgeDef typedEdgeAB)])
        \<lparr> events := [ElementsChange, NewNodesAdded [''core:B.md'']] \<rparr>) \<and>
   mergeToGraph vaultHost [NodeDef (vaultNode fileA), NodeDef (vaultNode fileB), EdgeDef typedEdgeAB]
     True True (Some [pinnedA])
     ((viewOn [notified 1 4 [''pinned'', ''has-outgoing-next step''] pinnedA,
               notified 1 4 [''has-incoming-next step'', ''local-0'']
                 ((liveNode fileB)\<lparr> el_position := (1, 1) \<rparr>),
               newElement (EdgeDef typedEdgeAB)])
        \<lparr> events := [ElementsChange, NewNodesAdded [''core:B.md'']] \<rparr>) =
     (Inr \<lparr> merged = [notified 1 4 [''pinned'', ''has-outgoing-next step''] pinnedA,
                       notified 1 4 [''has-incoming-next step'', ''local-0'']
                         ((liveNode fileB)\<lparr> el_position := (1, 1) \<rparr>),
                       newElement (EdgeDef typedEdgeAB)],
            added = [] \<rparr>,
      (viewOn [notified 1 4 [''pinned'', ''has-outgoing-next step''] pinnedA,
               notified 1 4 [''has-incoming-next step'', ''local-0'']
                 ((liveNode fileB)\<lparr> el_position := (1, 1) \<rparr>),
               newElement (EdgeDef typedEdgeAB)])
        \<lparr> events := [ElementsChange, NewNodesAdded [''core:B.md''], ElementsChange] \<rparr>)"
proof -
  let ?els = "[NodeDef (vaultNode fileA), NodeDef (vaultNode fileB), EdgeDef typedEdgeAB]"
  let ?a = "notified 1 4 [''pinned'', ''has-outgoing-next step''] pinnedA"
  let ?b = "notified 1 4 [''has-incoming-next step'', ''local-0''] ((liveNode fileB)\<lparr> el_position := (1, 1) \<rparr>)"
  let ?e = "newElement (EdgeDef typedEdgeAB)"
  let ?v1 = "(viewOn [?a, ?b, ?e])\<lparr> events := [ElementsChange, NewNodesAdded [''core:B.md'']] \<rparr>"
  have first: "mergeToGraph vaultHost ?els True True (Some [pinnedA]) (viewOn [pinnedA]) =
      (Inr \<lparr> merged = [?a, ?b, ?e], added = [?b, ?e] \<rparr>, ?v1)"
    by (simp add: merge_simps notify_simps graph_simps del: set_filter set_map)
  have g: "viz (viewOn [pinnedA]) = Some [pinnedA]"
    by (simp add: viewOn_def)
  from mergeToGraph_idempotent [OF g first, of True True "Some [pinnedA]"]
  obtain g1 where h1: "viz ?v1 = Some g1"
    and h2: "mergeToGraph vaultHost ?els True True (Some [pinnedA]) ?v1 =
      (Inr \<lparr> merged = filter (\<lambda>e. el_id e \<in> def_id ` set ?els) (recomputeGraph vaultHost ?v1 g1),
             added = [] \<rparr>,
       ?v1\<lparr> viz := Some (recomputeGraph vaultHost ?v1 g1), events := events ?v1 @ [ElementsChange] \<rparr>)"
    by auto
  from h1 have g1: "g1 = [?a, ?b, ?e]"
    by (simp add: viewOn_def)
  have again: "recomputeGraph vaultHost ?v1 [?a, ?b, ?e] = [?a, ?b, ?e]"
    by (simp add: notify_simps graph_simps el_id_def liveNode_def vaultNode_def fileA_def fileB_def
        Let_def del: set_filter set_map)
  have same: "filter (\<lambda>e. el_id e \<in> def_id ` set ?els) [?a, ?b, ?e] = [?a, ?b, ?e]"
    by (simp add: notify_simps graph_simps el_id_def liveNode_def vaultNode_def fileA_def fileB_def)
  have second: "mergeToGraph vaultHost ?els True True (Some [pinnedA]) ?v1 =
      (Inr \<lparr> merged = [?a, ?b, ?e], added = [] \<rparr>,
       (viewOn [?a, ?b, ?e])\<lparr> events := [ElementsChange, NewNodesAdded [''core:B.md''], ElementsChange] \<rparr>)"
    unfolding h2 g1 again same by (simp add: viewOn_def)
  show ?thesis
    using first second by (rule conjI)
qed

text \<open>
  C2 as the specification words it: the second merge of a batch would leave the
  live graph unchanged and overwrite no data. A batch of the two notes and the
  edge between them is merged without notification, then merged again with it:
  the second merge inserts nothing, and its notification sets the degree and the
  length of the name on both nodes, which the batch names, and adds classes to
  them.
\<close>

theorem mergeToGraph_second_merge_counterexample:
  "viz (snd (mergeToGraph vaultHost
               [NodeDef (vaultNode fileA), NodeDef (vaultNode fileB), EdgeDef typedEdgeAB]
               True False None (viewOn [pinnedA]))) =
     Some [pinnedA, liveNode fileB, newElement (EdgeDef typedEdgeAB)] \<and>
   viz (snd (mergeToGraph vaultHost
               [NodeDef (vaultNode fileA), NodeDef (vaultNode fileB), EdgeDef typedEdgeAB]
               True True None
               (snd (mergeToGraph vaultHost
                       [NodeDef (vaultNode fileA), NodeDef (vaultNode fileB), EdgeDef typedEdgeAB]
                       True False None (viewOn [pinnedA]))))) =
     Some [notified 1 4 [''pinned'', ''has-outgoing-next step''] pinnedA,
           notified 1 4 [''has-incoming-next step'', ''local-0''] (liveNode fileB),
           newElement (EdgeDef typedEdgeAB)] \<and>
   notified 1 4 [''pinned'', ''has-outgoing-next step''] pinnedA \<noteq> pinnedA"
proof -
  let ?els = "[NodeDef (vaultNode fileA), NodeDef (vaultNode fileB), EdgeDef typedEdgeAB]"
  let ?e = "newElement (EdgeDef typedEdgeAB)"
  let ?v1 = "(viewOn [pinnedA, liveNode fileB, ?e])\<lparr> events := [NewNodesAdded [''core:B.md'']] \<rparr>"
  have first: "mergeToGraph vaultHost ?els True False None (viewOn [pinnedA]) =
      (Inr \<lparr> merged = [pinnedA, liveNode fileB, ?e], added = [liveNode fileB, ?e] \<rparr>, ?v1)"
    by (simp add: merge_simps notify_simps graph_simps del: set_filter set_map)
  have second: "viz (snd (mergeToGraph vaultHost ?els True True None ?v1)) =
      Some [notified 1 4 [''pinned'', ''has-outgoing-next step''] pinnedA,
            notified 1 4 [''has-incoming-next step'', ''local-0''] (liveNode fileB), ?e]"
    by (simp add: merge_simps notify_simps graph_simps del: set_filter set_map)
  have differ: "notified 1 4 [''pinned'', ''has-outgoing-next step''] pinnedA \<noteq> pinnedA"
    by (simp add: notified_def pinnedA_def vaultNode_def)
  show ?thesis
    unfolding first snd_conv using second differ by (simp add: viewOn_def)
qed

section \<open>Expanding nothing\<close>

text \<open>
  C10. \<open>expand\<close> on an empty collection returns \<open>null\<close> and leaves the view as it is:
  the graph with its classes, and the events triggered so far.
\<close>

theorem expand_empty:
  "expand E H stores [] batch triggerGraphChanged v = (Inr None, v)"
  by (simp add: expand_def)

theorem expand_empty_witness:
  "expand vault vaultHost [obsidianStore vault] [] True True (viewOn [pinnedA]) =
     (Inr None, viewOn [pinnedA])"
  using expand_empty [of vault vaultHost "[obsidianStore vault]" True True "viewOn [pinnedA]"]
  by simp

section \<open>Refreshing a node\<close>

text \<open>
  C4, as the source has it. When the file of the refreshed id is missing, the
  refresh removes the elements of the graph that bear the id, fires the
  structural-change notification, which computes the derived data of the nodes
  anew and asks for a restart of the layout, and stops there: nothing is merged
  and no edge is recomputed. The notification is fired whether or not the graph
  had an element for the id, since the test of line 289 is on the collection
  itself.
\<close>

theorem refreshNode_missing_file:
  assumes "vizReady v" and "viz v = Some g" and "getFile E ident = None"
  shows "refreshNode E H stores ident v =
           (Inr (), v\<lparr> viz := Some (recomputeGraph H v (removeElements g (by_id g (toId E ident)))),
                        events := events v @ [ElementsChange, RestartLayoutDebounced] \<rparr>)"
  using assms
  by (simp add: refreshNode_def Let_def objectTruthy_def onGraphChanged_def)

theorem refreshNode_missing_file_witness:
  "by_id [pinnedA] (toId vault \<lparr> v_id = ''Gone'', v_storeId = ''core'' \<rparr>) = [] \<and>
   refreshNode vault vaultHost [obsidianStore vault] \<lparr> v_id = ''Gone'', v_storeId = ''core'' \<rparr>
     (viewOn [pinnedA]) =
     (Inr (), (viewOn [notified 0 4 [''pinned''] pinnedA])
                \<lparr> events := [ElementsChange, RestartLayoutDebounced] \<rparr>)"
proof -
  let ?v = "viewOn [pinnedA]"
  let ?i = "\<lparr> v_id = ''Gone'', v_storeId = ''core'' \<rparr>"
  have a: "vizReady ?v" "viz ?v = Some [pinnedA]" by (simp_all add: viewOn_def)
  have b: "getFile vault ?i = None" by (simp add: getFile_def vault_def)
  have c: "by_id [pinnedA] (toId vault ?i) = []"
    by (simp add: by_id_def el_id_def pinnedA_def vaultNode_def vault_def fileA_def)
  have d: "recomputeGraph vaultHost ?v [pinnedA] = [notified 0 4 [''pinned''] pinnedA]"
    by (simp add: notify_simps graph_simps el_id_def vaultNode_def fileA_def Let_def
        del: set_filter set_map)
  show ?thesis
    using refreshNode_missing_file [OF a b, of vaultHost "[obsidianStore vault]"] c d
    by (simp add: removeElements_def attachedTo_def viewOn_def)
qed

lemma edgesToRemove_stale:
  "filter (\<lambda>edge. \<not> hasClass [edge] ''terminal-connection'')
     (difference (connectedEdges g node) (merged correctEdges)) =
   filter (staleEdge node correctEdges) g"
  by (auto simp: difference_def connectedEdges_def staleEdge_def intro: filter_cong)

lemma removeElements_stale:
  "removeElements g (filter (staleEdge node correctEdges) g) =
   filter (\<lambda>e. \<not> staleEdge node correctEdges e) g"
proof -
  have "\<not> attachedTo (filter (staleEdge node correctEdges) g) e" for e
    by (auto simp: attachedTo_def staleEdge_def)
  then show ?thesis
    by (auto simp: removeElements_def intro: filter_cong)
qed

lemma refreshPrune_result:
  assumes "viz v = Some g"
  shows "\<exists>v2. refreshPrune E H ident node correctEdges v = (Inr (), v2) \<and>
           viz v2 = Some (if filter (staleEdge node correctEdges) g \<noteq> [] \<or> added correctEdges \<noteq> []
                          then recomputeGraph H v (filter (\<lambda>e. \<not> staleEdge node correctEdges e) g)
                          else filter (\<lambda>e. \<not> staleEdge node correctEdges e) g)"
proof -
  let ?stale = "filter (staleEdge node correctEdges) g"
  let ?kept = "filter (\<lambda>e. \<not> staleEdge node correctEdges e) g"
  let ?v1 = "v\<lparr> viz := Some ?kept \<rparr>"
  have removed: "filter (\<lambda>e. e \<in> set g) ?stale = ?stale"
    by (rule filter_True) simp
  have v1: "viz ?v1 = Some ?kept" by simp
  show ?thesis
  proof (cases "?stale \<noteq> [] \<or> added correctEdges \<noteq> []")
    case True
    then have c: "length ?stale > 0 \<or> length (added correctEdges) > 0" by simp
    show ?thesis
      unfolding refreshPrune_def assms option.case edgesToRemove_stale removeElements_stale
        Let_def removed
      using c True
      by (simp add: onGraphChanged_result [OF v1] trigger_def split: option.splits)
  next
    case False
    then have c: "\<not> (length ?stale > 0 \<or> length (added correctEdges) > 0)" by simp
    show ?thesis
      unfolding refreshPrune_def assms option.case edgesToRemove_stale removeElements_stale
        Let_def removed
      using c False
      by (simp add: trigger_def split: option.splits)
  qed
qed

lemma addClass_keeps:
  "e \<in> set g \<Longrightarrow> el_id e \<notin> el_id ` set coll \<Longrightarrow> e \<in> set (addClass coll c g)"
  by (force simp: addClass_def)

lemma expand_keeps:
  assumes "viz v = Some g" and "expand E H stores toExpand batch False v = (Inr (Some ce), v1)"
  shows "\<exists>g1. viz v1 = Some g1 \<and> (\<forall>e \<in> set g. el_id e \<notin> el_id ` set toExpand \<longrightarrow> e \<in> set g1)"
proof -
  let ?g0 = "addClass toExpand CLASS_PROTECTED (addClass toExpand CLASS_EXPANDED g)"
  let ?v0 = "v\<lparr> viz := Some ?g0 \<rparr>"
  from assms obtain nb r v2 g2 edges v3 where
    m1: "mergeToGraph H (map NodeDef nb) False False (Some toExpand) ?v0 = (Inr r, v2)" and
    g2: "viz v2 = Some g2" and
    m2: "mergeToGraph H (map EdgeDef edges) False False None v2 = (Inr ce, v3)" and
    v1: "v1 = trigger (Expand (map el_id toExpand)) v3"
    by (auto simp: expand_def Let_def split: if_splits option.splits sum.splits prod.splits)
  have "viz ?v0 = Some ?g0" by simp
  from mergeToGraph_result [OF this m1] g2 obtain new where n1: "g2 = ?g0 @ new"
    by auto
  from mergeToGraph_result [OF g2 m2] obtain new2 where n2: "viz v3 = Some (g2 @ new2)"
    by auto
  have "viz v1 = Some (?g0 @ new @ new2)"
    using v1 n1 n2 by (simp add: trigger_def)
  moreover have "e \<in> set (?g0 @ new @ new2)" if "e \<in> set g" "el_id e \<notin> el_id ` set toExpand" for e
    using addClass_keeps [OF addClass_keeps [OF that] that(2)] by simp
  ultimately show ?thesis by blast
qed

lemma refreshRecompute_keeps:
  assumes "viz v = Some g"
    and "refreshRecompute E H stores ident (by_id g (toId E ident)) v = (Inr (Some (ce, node)), v1)"
  shows "\<exists>g1. viz v1 = Some g1 \<and> (\<forall>e \<in> set g. el_id e \<noteq> toId E ident \<longrightarrow> e \<in> set g1)"
proof (cases "length (by_id g (toId E ident)) > 0 \<and> hasClass (by_id g (toId E ident)) CLASS_EXPANDED")
  case True
  with assms(2) have "expand E H stores (by_id g (toId E ident)) True False v = (Inr (Some ce), v1)"
    by (auto simp: refreshRecompute_def split: prod.splits sum.splits option.splits)
  from expand_keeps [OF assms(1) this] obtain g1 where
    g1: "viz v1 = Some g1" "\<forall>e \<in> set g. el_id e \<notin> el_id ` set (by_id g (toId E ident)) \<longrightarrow> e \<in> set g1"
    by blast
  have "el_id e \<notin> el_id ` set (by_id g (toId E ident))" if "el_id e \<noteq> toId E ident" for e
    using that by (auto simp: by_id_def)
  with g1 show ?thesis by blast
next
  case False
  with assms(2) obtain nodeDef1 r v0 g0 edges where
    m1: "mergeToGraph H [NodeDef nodeDef1] True False None v = (Inr r, v0)" and
    g0: "viz v0 = Some g0" and
    m2: "mergeToGraph H (map EdgeDef edges) True False None v0 = (Inr ce, v1)"
    unfolding refreshRecompute_def Let_def
    by (auto split: if_splits option.splits sum.splits prod.splits)
  from mergeToGraph_result [OF assms(1) m1] g0 obtain new where n1: "g0 = g @ new"
    by auto
  from mergeToGraph_result [OF g0 m2] obtain new2 where n2: "viz v1 = Some (g0 @ new2)"
    by auto
  show ?thesis using n1 n2 by auto
qed

text \<open>
  C5, as the source has it. A refresh that recomputes the edges of a node (the
  graph is ready, the node's file exists and the recomputation yields the
  recomputed edges) then removes from the graph exactly the stale edges: those
  attached to the node, not among the recomputed ones, and not marked as a
  protected connection. When an edge was removed or added, the
  structural-change notification then computes the derived data of the nodes
  anew; it leaves every element in its place and every edge as it was, so that
  the edges of the graph afterwards are the edges it had when the pruning
  started but for the stale ones. Every protected edge is still there, as it
  was: those present when the pruning starts, and with them those the graph had
  before the refresh (the recomputation keeps every element that does not bear
  the refreshed id).
\<close>

theorem refreshNode_prunes_stale_edges:
  assumes "vizReady v" and "viz v = Some g" and "getFile E ident \<noteq> None"
    and "refreshRecompute E H stores ident (by_id g (toId E ident)) v =
           (Inr (Some (correctEdges, node)), v1)"
  shows "\<exists>g1 g2 v2. viz v1 = Some g1 \<and>
           refreshNode E H stores ident v = (Inr (), v2) \<and>
           viz v2 = Some g2 \<and>
           g2 = (if filter (staleEdge node correctEdges) g1 \<noteq> [] \<or> added correctEdges \<noteq> []
                 then recomputeGraph H v1 (filter (\<lambda>e. \<not> staleEdge node correctEdges e) g1)
                 else filter (\<lambda>e. \<not> staleEdge node correctEdges e) g1) \<and>
           list_all2 sameElement (filter (\<lambda>e. \<not> staleEdge node correctEdges e) g1) g2 \<and>
           filter (\<lambda>e. \<not> isNode e) g2 =
             filter (\<lambda>e. \<not> isNode e \<and> \<not> staleEdge node correctEdges e) g1 \<and>
           (\<forall>e \<in> set g1. \<not> isNode e \<and> hasClass [e] ''terminal-connection'' \<longrightarrow> e \<in> set g2) \<and>
           (\<forall>e \<in> set g. \<not> isNode e \<and> hasClass [e] ''terminal-connection'' \<and> el_id e \<noteq> toId E ident \<longrightarrow>
              e \<in> set g2)"
proof -
  let ?kept = "\<lambda>g1. filter (\<lambda>e. \<not> staleEdge node correctEdges e) g1"
  from refreshRecompute_keeps [OF assms(2,4)] obtain g1 where
    g1: "viz v1 = Some g1" and keeps: "\<forall>e \<in> set g. el_id e \<noteq> toId E ident \<longrightarrow> e \<in> set g1"
    by blast
  define g2 where "g2 = (if filter (staleEdge node correctEdges) g1 \<noteq> [] \<or> added correctEdges \<noteq> []
                 then recomputeGraph H v1 (?kept g1) else ?kept g1)"
  from refreshPrune_result [OF g1, of E H ident node correctEdges] obtain v2 where
    v2: "refreshPrune E H ident node correctEdges v1 = (Inr (), v2)" "viz v2 = Some g2"
    unfolding g2_def by blast
  obtain doc where doc: "getFile E ident = Some doc"
    using assms(3) by blast
  have run: "refreshNode E H stores ident v = (Inr (), v2)"
    using assms(1,2,4) v2(1) doc by (simp add: refreshNode_def Let_def)
  have same: "list_all2 sameElement (?kept g1) g2"
    unfolding g2_def by (simp add: recomputeGraph_same list_all2_same sameElement_refl)
  have "filter (\<lambda>e. \<not> isNode e \<and> True) g2 = filter (\<lambda>e. \<not> isNode e \<and> True) (?kept g1)"
    by (rule sameElements_filter [OF same])
  then have edges: "filter (\<lambda>e. \<not> isNode e) g2 =
      filter (\<lambda>e. \<not> isNode e \<and> \<not> staleEdge node correctEdges e) g1"
    by (simp add: conj_commute)
  have prot: "e \<in> set g2"
    if "e \<in> set g1" "\<not> isNode e" "hasClass [e] ''terminal-connection''" for e
  proof -
    from that have "e \<in> set (?kept g1)" by (simp add: staleEdge_def)
    with sameElements_edge_mem [OF same that(2)] show ?thesis by simp
  qed
  have prot0: "e \<in> set g2"
    if "e \<in> set g" "\<not> isNode e" "hasClass [e] ''terminal-connection''" "el_id e \<noteq> toId E ident" for e
    using that keeps prot by blast
  show ?thesis
    using g1 run v2(2) g2_def same edges prot prot0 by blast
qed

theorem refreshNode_prunes_stale_edges_witness:
  "fst (refreshNode vault vaultHost [obsidianStore vault] \<lparr> v_id = ''A.md'', v_storeId = ''core'' \<rparr>
          vaultView) = Inr () \<and>
   viz (snd (refreshNode vault vaultHost [obsidianStore vault] \<lparr> v_id = ''A.md'', v_storeId = ''core'' \<rparr>
          vaultView)) =
     Some [notified 3 4 [''pinned'', ''has-incoming-inline'', ''has-outgoing-next step'',
                         ''has-outgoing-inline''] pinnedA,
           notified 2 4 [''has-incoming-next step'', ''has-incoming-inline'', ''local-0'']
             (liveNode fileB),
           notified 1 10 [''terminal'', ''has-outgoing-inline''] terminalNode,
           terminalEdge, newElement (EdgeDef typedEdgeAB), newElement (EdgeDef mergedEdgeAB)]"
proof -
  let ?i = "\<lparr> v_id = ''A.md'', v_storeId = ''core'' \<rparr>"
  let ?new = "[newElement (EdgeDef typedEdgeAB), newElement (EdgeDef mergedEdgeAB)]"
  let ?ce = "\<lparr> merged = ?new, added = ?new \<rparr>"
  let ?v1 = "vaultView\<lparr> viz := Some (vaultGraph @ ?new) \<rparr>"
  have a: "vizReady vaultView" "viz vaultView = Some vaultGraph"
    by (simp_all add: vaultView_def viewOn_def)
  have b: "getFile vault ?i \<noteq> None"
    by (simp add: getFile_def vault_def)
  have node: "by_id vaultGraph (toId vault ?i) = [pinnedA]"
    by (simp add: vaultGraph_def graph_simps vault_simps)
  have rec: "refreshRecompute vault vaultHost [obsidianStore vault] ?i
               (by_id vaultGraph (toId vault ?i)) vaultView = (Inr (Some (?ce, [pinnedA])), ?v1)"
    by (simp add: refreshRecompute_def get_def getFile_def mergeToGraph_def mergeToGraphUtil_def
        positionAdded_def readCollection_def buildEdges_def obsidianStore_def CLASS_EXPANDED_def
        connectNodes_def difference_def fromNode_def createEdges_def
        collectEdges_def addLink_def contextSeparator_def vaultGraph_def vaultView_def viewOn_def
        vaultHost_def graph_simps vault_simps del: set_filter set_map)
  from refreshNode_prunes_stale_edges [OF a b rec]
  obtain g1 g2 v2 where g1: "viz ?v1 = Some g1"
    and run: "refreshNode vault vaultHost [obsidianStore vault] ?i vaultView = (Inr (), v2)"
    and v2: "viz v2 = Some g2"
    and g2: "g2 = (if filter (staleEdge [pinnedA] ?ce) g1 \<noteq> [] \<or> added ?ce \<noteq> []
                   then recomputeGraph vaultHost ?v1 (filter (\<lambda>e. \<not> staleEdge [pinnedA] ?ce e) g1)
                   else filter (\<lambda>e. \<not> staleEdge [pinnedA] ?ce e) g1)"
    by blast
  from g1 have graph: "g1 = vaultGraph @ ?new"
    by simp
  have kept: "filter (\<lambda>e. \<not> staleEdge [pinnedA] ?ce e) (vaultGraph @ ?new) =
      [pinnedA, liveNode fileB, terminalNode, terminalEdge,
       newElement (EdgeDef typedEdgeAB), newElement (EdgeDef mergedEdgeAB)]"
    by (simp add: staleEdge_def vaultGraph_def graph_simps liveNode_def vaultNode_def el_id_def
        fileA_def fileB_def)
  have notify: "recomputeGraph vaultHost ?v1
      [pinnedA, liveNode fileB, terminalNode, terminalEdge,
       newElement (EdgeDef typedEdgeAB), newElement (EdgeDef mergedEdgeAB)] =
      [notified 3 4 [''pinned'', ''has-incoming-inline'', ''has-outgoing-next step'',
                     ''has-outgoing-inline''] pinnedA,
       notified 2 4 [''has-incoming-next step'', ''has-incoming-inline'', ''local-0''] (liveNode fileB),
       notified 1 10 [''terminal'', ''has-outgoing-inline''] terminalNode,
       terminalEdge, newElement (EdgeDef typedEdgeAB), newElement (EdgeDef mergedEdgeAB)]"
    by (simp add: vaultView_def notify_simps graph_simps el_id_def liveNode_def vaultNode_def
        fileA_def fileB_def Let_def del: set_filter set_map)
  have "g2 = recomputeGraph vaultHost ?v1
      [pinnedA, liveNode fileB, terminalNode, terminalEdge,
       newElement (EdgeDef typedEdgeAB), newElement (EdgeDef mergedEdgeAB)]"
    unfolding g2 graph kept by simp
  with run v2 notify show ?thesis by simp
qed

text \<open>
  C5 as the specification words it, for every refresh: every edge marked as a
  protected connection would survive. A refresh of an id whose file is missing
  recomputes nothing; it removes the node of that id, and with the node the
  edges attached to it, the protected one among them.
\<close>

theorem refreshNode_terminal_edge_counterexample:
  "hasClass [terminalEdgeGone] ''terminal-connection'' \<and>
   terminalEdgeGone \<in> set [goneNode, terminalNode, terminalEdgeGone] \<and>
   viz (snd (refreshNode vault vaultHost [obsidianStore vault] \<lparr> v_id = ''Gone'', v_storeId = ''core'' \<rparr>
               (viewOn [goneNode, terminalNode, terminalEdgeGone]))) =
     Some [notified 0 10 [''terminal''] terminalNode] \<and>
   terminalEdgeGone \<notin> set [notified 0 10 [''terminal''] terminalNode]"
proof -
  let ?i = "\<lparr> v_id = ''Gone'', v_storeId = ''core'' \<rparr>"
  let ?g = "[goneNode, terminalNode, terminalEdgeGone]"
  have marked: "hasClass [terminalEdgeGone] ''terminal-connection''"
    by (simp add: hasClass_def terminalEdgeGone_def)
  have removed: "removeElements ?g (by_id ?g (toId vault ?i)) = [terminalNode]"
    by (simp add: removeElements_def goneNode_def terminalEdgeGone_def vaultDangling_def el_id_def
        graph_simps vault_def)
  have notify: "recomputeGraph vaultHost (viewOn ?g) [terminalNode] = [notified 0 10 [''terminal''] terminalNode]"
    by (simp add: notify_simps graph_simps el_id_def Let_def del: set_filter set_map)
  have run: "refreshNode vault vaultHost [obsidianStore vault] ?i (viewOn ?g) =
      onGraphChanged vaultHost True True ((viewOn ?g)\<lparr> viz := Some (removeElements ?g (by_id ?g (toId vault ?i))) \<rparr>)"
    by (simp add: refreshNode_def objectTruthy_def getFile_def vault_def viewOn_def Let_def)
  have after: "viz (snd (refreshNode vault vaultHost [obsidianStore vault] ?i (viewOn ?g))) =
      Some [notified 0 10 [''terminal''] terminalNode]"
    unfolding run removed using notify by (simp add: onGraphChanged_def)
  have gone: "terminalEdgeGone \<notin> set [notified 0 10 [''terminal''] terminalNode]"
    by (simp add: notified_def terminalEdgeGone_def terminalNode_def)
  show ?thesis
    using marked after gone by simp
qed

end
